theory Spec2Isabelle
  imports Main "HOL-Library.Multiset" "HOL-Library.Product_Lexorder"
begin

section \<open>Python floats: IEEE 754 binary64\<close>

text \<open>
  A Python \<^verbatim>\<open>float\<close> is a binary64 number. \<open>Finite s m e\<close> is the number
  \<open>(-1)\<^sup>s \<sdot> m \<sdot> 2\<^sup>e\<close> with \<open>m \<ge> 0\<close>, kept in the form where \<open>m\<close> is odd or \<open>m = 0\<close>
  and \<open>e = 0\<close>, so that two finite floats of equal value and sign are the same term;
  the sign of a zero is kept. \<open>Inf s\<close> is the infinity of sign \<open>s\<close> (\<open>True\<close> is
  negative), \<open>NaN\<close> a not-a-number.
\<close>

datatype float64 = NaN | Inf bool | Finite bool int int

text \<open>
  \<open>pow2 k\<close> is \<open>2\<^sup>k\<close> for \<open>k \<ge> 0\<close> and \<open>1\<close> below; \<open>bitlen n\<close> is the number of bits
  of \<open>n > 0\<close>; \<open>strip_zeros\<close> brings a mantissa and an exponent to the form with an
  odd mantissa.
\<close>

function pow2 :: "int \<Rightarrow> int" where
  "pow2 k = (if k \<le> 0 then 1 else 2 * pow2 (k - 1))"
  by pat_completeness auto
termination
  by (relation "measure nat") auto

function bitlen :: "int \<Rightarrow> int" where
  "bitlen n = (if n \<le> 0 then 0 else 1 + bitlen (n div 2))"
  by pat_completeness auto
termination
  by (relation "measure nat") auto

function strip_zeros :: "int \<Rightarrow> int \<Rightarrow> int \<times> int" where
  "strip_zeros m e =
     (if m \<le> 0 then (0, 0)
      else if m mod 2 = 0 then strip_zeros (m div 2) (e + 1)
      else (m, e))"
  by pat_completeness auto
termination
  by (relation "measure (\<lambda>(m, e). nat m)") auto

declare pow2.simps [simp del] bitlen.simps [simp del] strip_zeros.simps [simp del]

text \<open>The integer nearest to \<open>n / d\<close> (\<open>n \<ge> 0\<close>, \<open>d > 0\<close>), a tie going to the even one.\<close>

definition round_half_even :: "int \<Rightarrow> int \<Rightarrow> int" where
  "round_half_even n d =
     (let q = n div d; r = n mod d
      in if 2 * r < d then q
         else if 2 * r > d then q + 1
         else if q mod 2 = 0 then q else q + 1)"

text \<open>
  The binary64 number nearest to \<open>(-1)\<^sup>s \<sdot> n / d\<close> (\<open>n \<ge> 0\<close>, \<open>d > 0\<close>) in the default
  rounding mode, round to nearest with ties to even: 53 significant bits, the smallest
  spacing \<open>2\<^sup>-\<^sup>1\<^sup>0\<^sup>7\<^sup>4\<close> (subnormal numbers, underflow to a signed zero), and an
  infinity when the rounded magnitude reaches \<open>2\<^sup>1\<^sup>0\<^sup>2\<^sup>4\<close>.
\<close>

definition float_round :: "bool \<Rightarrow> int \<Rightarrow> int \<Rightarrow> float64" where
  "float_round s n d =
     (if n = 0 then Finite s 0 0
      else
        let k = bitlen n - bitlen d;
            floor_log = (if n * pow2 (- k) \<ge> d * pow2 k then k else k - 1);
            e = max (floor_log - 52) (- 1074);
            m = round_half_even (n * pow2 (- e)) (d * pow2 e)
        in if e > 971 \<or> (e = 971 \<and> m \<ge> pow2 53) then Inf s
           else (case strip_zeros m e of (m', e') \<Rightarrow> Finite s m' e'))"

text \<open>The float a decimal literal or a quotient of integers denotes.\<close>

definition py_float :: "int \<Rightarrow> int \<Rightarrow> float64" where
  "py_float n d = float_round (n < 0) \<bar>n\<bar> d"

text \<open>The signed mantissa of a finite float.\<close>

definition signed :: "bool \<Rightarrow> int \<Rightarrow> int" where
  "signed s m = (if s then - m else m)"

text \<open>Negation and \<^verbatim>\<open>abs\<close> change the sign only, also that of a zero.\<close>

fun float_neg :: "float64 \<Rightarrow> float64" where
  "float_neg NaN = NaN"
| "float_neg (Inf s) = Inf (\<not> s)"
| "float_neg (Finite s m e) = Finite (\<not> s) m e"

fun float_abs :: "float64 \<Rightarrow> float64" where
  "float_abs NaN = NaN"
| "float_abs (Inf s) = Inf False"
| "float_abs (Finite s m e) = Finite False m e"

text \<open>
  \<^verbatim>\<open>x + y\<close> and \<^verbatim>\<open>x - y\<close>: the exact sum of two finite floats, rounded once. An
  exact sum of zero is \<open>+0.0\<close>, except that the sum of two negative zeros is \<open>-0.0\<close>;
  infinities of opposite signs add to a NaN.
\<close>

fun float_add :: "float64 \<Rightarrow> float64 \<Rightarrow> float64" where
  "float_add NaN y = NaN"
| "float_add x NaN = NaN"
| "float_add (Inf s) (Inf t) = (if s = t then Inf s else NaN)"
| "float_add (Inf s) (Finite t m e) = Inf s"
| "float_add (Finite s m e) (Inf t) = Inf t"
| "float_add (Finite s1 m1 e1) (Finite s2 m2 e2) =
     (let e = min e1 e2;
          z = signed s1 m1 * pow2 (e1 - e) + signed s2 m2 * pow2 (e2 - e)
      in if z = 0 then Finite (m1 = 0 \<and> m2 = 0 \<and> s1 \<and> s2) 0 0
         else float_round (z < 0) (\<bar>z\<bar> * pow2 e) (pow2 (- e)))"

definition float_sub :: "float64 \<Rightarrow> float64 \<Rightarrow> float64" where
  "float_sub x y = float_add x (float_neg y)"

fun is_zero :: "float64 \<Rightarrow> bool" where
  "is_zero (Finite s m e) = (m = 0)"
| "is_zero _ = False"

text \<open>
  The quotient of two floats, for a divisor that is not zero (Python raises
  ZeroDivisionError on a zero divisor before it divides, see \<open>py_truediv\<close>): the
  exact quotient of two finite floats, rounded once.
\<close>

fun float_div :: "float64 \<Rightarrow> float64 \<Rightarrow> float64" where
  "float_div NaN y = NaN"
| "float_div x NaN = NaN"
| "float_div (Inf s) (Inf t) = NaN"
| "float_div (Inf s) (Finite t m e) = Inf (s \<noteq> t)"
| "float_div (Finite s m e) (Inf t) = Finite (s \<noteq> t) 0 0"
| "float_div (Finite s1 m1 e1) (Finite s2 m2 e2) =
     float_round (s1 \<noteq> s2) (m1 * pow2 (e1 - e2)) (m2 * pow2 (e2 - e1))"

text \<open>
  The comparisons \<^verbatim>\<open><\<close>, \<^verbatim>\<open>==\<close>, \<^verbatim>\<open><=\<close>, \<^verbatim>\<open>>\<close> and \<^verbatim>\<open>>=\<close>: exact on the values, the
  two zeros equal, and false whenever an operand is a NaN. Two finite floats are
  compared as integers, both brought to the smaller of the two exponents.
\<close>

fun float_lt :: "float64 \<Rightarrow> float64 \<Rightarrow> bool" where
  "float_lt NaN y = False"
| "float_lt x NaN = False"
| "float_lt (Inf s) (Inf t) = (s \<and> \<not> t)"
| "float_lt (Inf s) (Finite t m e) = s"
| "float_lt (Finite s m e) (Inf t) = (\<not> t)"
| "float_lt (Finite s1 m1 e1) (Finite s2 m2 e2) =
     (signed s1 m1 * pow2 (e1 - e2) < signed s2 m2 * pow2 (e2 - e1))"

fun float_eq :: "float64 \<Rightarrow> float64 \<Rightarrow> bool" where
  "float_eq NaN y = False"
| "float_eq x NaN = False"
| "float_eq (Inf s) (Inf t) = (s = t)"
| "float_eq (Inf s) (Finite t m e) = False"
| "float_eq (Finite s m e) (Inf t) = False"
| "float_eq (Finite s1 m1 e1) (Finite s2 m2 e2) =
     (signed s1 m1 * pow2 (e1 - e2) = signed s2 m2 * pow2 (e2 - e1))"

definition float_le :: "float64 \<Rightarrow> float64 \<Rightarrow> bool" where
  "float_le x y = (float_lt x y \<or> float_eq x y)"

definition float_gt :: "float64 \<Rightarrow> float64 \<Rightarrow> bool" where
  "float_gt x y = float_lt y x"

definition float_ge :: "float64 \<Rightarrow> float64 \<Rightarrow> bool" where
  "float_ge x y = float_le y x"

subsection \<open>Comparing floats at a common exponent\<close>

text \<open>
  The rank of a float that is not a NaN, at an exponent \<open>e0\<close> that is not above its
  own: the infinities are below and above every finite float, and a finite float has
  the integer \<open>(-1)\<^sup>s \<sdot> m \<sdot> 2\<^sup>e\<^sup>-\<^sup>e\<^sup>0\<close>.
\<close>

fun rank :: "int \<Rightarrow> float64 \<Rightarrow> int \<times> int" where
  "rank e0 NaN = (0, 0)"
| "rank e0 (Inf s) = (if s then - 1 else 1, 0)"
| "rank e0 (Finite s m e) = (0, signed s m * pow2 (e - e0))"



text \<open>
  A finite float as a multiple of \<open>2\<^sup>e\<^sup>0\<close>, for an exponent \<open>e0\<close> that is not above
  its own: exact arithmetic on floats is integer arithmetic on these multiples.
\<close>

definition scaled :: "int \<Rightarrow> float64 \<Rightarrow> int" where
  "scaled e0 x = snd (rank e0 x)"

section \<open>Values decoded from JSON\<close>

text \<open>
  Everything \<^verbatim>\<open>queryv2.py\<close> inspects comes out of \<^verbatim>\<open>response.json()\<close>: a JSON
  value decoded into Python's \<^verbatim>\<open>None\<close>, \<^verbatim>\<open>bool\<close>, \<^verbatim>\<open>int\<close>, \<^verbatim>\<open>float\<close>, \<^verbatim>\<open>str\<close>,
  \<^verbatim>\<open>list\<close> and \<^verbatim>\<open>dict\<close>. Python integers are unbounded (\<open>int\<close>), Python floats
  are binary64 numbers (\<open>float64\<close>). A dictionary is an association list in insertion
  order that holds each key once; a lookup reads the first binding of a key.
  A string is a list of characters, indexed by position.
\<close>

datatype json =
    JNull
  | JBool bool
  | JInt int
  | JFloat float64
  | JStr string
  | JList "json list"
  | JDict "(string \<times> json) list"

text \<open>The exceptions the dynamic operations of the source can raise.\<close>

datatype py_error =
  AttributeError | TypeError | KeyError | IndexError | OverflowError | ZeroDivisionError

text \<open>Sequencing of computations that may raise: the first exception wins.\<close>

definition bind_err :: "py_error + 'a \<Rightarrow> ('a \<Rightarrow> py_error + 'b) \<Rightarrow> py_error + 'b" where
  "bind_err m f = (case m of Inl e \<Rightarrow> Inl e | Inr x \<Rightarrow> f x)"

text \<open>Python truthiness (\<^verbatim>\<open>if x:\<close>, \<^verbatim>\<open>not x\<close>) of a decoded value.\<close>

fun truthy :: "json \<Rightarrow> bool" where
  "truthy JNull = False"
| "truthy (JBool b) = b"
| "truthy (JInt n) = (n \<noteq> 0)"
| "truthy (JFloat r) = (\<not> float_eq r (Finite False 0 0))"
| "truthy (JStr s) = (s \<noteq> [])"
| "truthy (JList xs) = (xs \<noteq> [])"
| "truthy (JDict kvs) = (kvs \<noteq> [])"

text \<open>\<^verbatim>\<open>len(x)\<close>: defined on lists, strings and dictionaries, a TypeError elsewhere.\<close>

fun py_len :: "json \<Rightarrow> py_error + nat" where
  "py_len (JList xs) = Inr (length xs)"
| "py_len (JStr s) = Inr (length s)"
| "py_len (JDict kvs) = Inr (length kvs)"
| "py_len _ = Inl TypeError"

text \<open>
  \<^verbatim>\<open>x[i]\<close> for a non-negative integer \<open>i\<close>: an element of a list, a one-character
  string of a string, IndexError out of range, KeyError on a dictionary (whose keys
  are strings), TypeError on a value that is not subscriptable.
\<close>

fun py_getitem :: "json \<Rightarrow> nat \<Rightarrow> py_error + json" where
  "py_getitem (JList xs) i = (if i < length xs then Inr (xs ! i) else Inl IndexError)"
| "py_getitem (JStr s) i = (if i < length s then Inr (JStr [s ! i]) else Inl IndexError)"
| "py_getitem (JDict kvs) i = Inl KeyError"
| "py_getitem _ i = Inl TypeError"

text \<open>
  The conversion of an int operand of a float operation: the nearest binary64 number,
  and OverflowError when the int rounds to a magnitude beyond the largest one.
\<close>

definition int_to_float :: "int \<Rightarrow> py_error + float64" where
  "int_to_float n =
     (case float_round (n < 0) \<bar>n\<bar> 1 of
        Inf s \<Rightarrow> Inl OverflowError
      | x \<Rightarrow> Inr x)"

text \<open>
  An operand of a float operation: an int, a float or a bool (Python's bool is an
  int); any other operand raises TypeError.
\<close>

fun py_number :: "json \<Rightarrow> py_error + float64" where
  "py_number (JBool b) = Inr (Finite False (if b then 1 else 0) 0)"
| "py_number (JInt n) = int_to_float n"
| "py_number (JFloat r) = Inr r"
| "py_number _ = Inl TypeError"

text \<open>
  \<^verbatim>\<open>x / y\<close> for a float \<open>y\<close>: the left operand is converted, a zero divisor raises
  ZeroDivisionError, and the quotient is rounded once.
\<close>

definition py_truediv :: "json \<Rightarrow> float64 \<Rightarrow> py_error + float64" where
  "py_truediv x y =
     bind_err (py_number x) (\<lambda>a.
       if is_zero y then Inl ZeroDivisionError else Inr (float_div a y))"

text \<open>The literal \<^verbatim>\<open>1e9\<close>, which is \<open>1953125 \<sdot> 2\<^sup>9\<close>.\<close>

definition f_1e9 :: float64 where
  "f_1e9 = Finite False 1953125 9"

text \<open>\<^verbatim>\<open>x.get(key, default)\<close>: only a dictionary has the method.\<close>

fun dict_get :: "json \<Rightarrow> string \<Rightarrow> json \<Rightarrow> py_error + json" where
  "dict_get (JDict kvs) key dflt =
     Inr (case map_of kvs key of Some v \<Rightarrow> v | None \<Rightarrow> dflt)"
| "dict_get _ key dflt = Inl AttributeError"

text \<open>\<^verbatim>\<open>key in x\<close> and \<^verbatim>\<open>x[key]\<close> for a value already known to be a dictionary.\<close>

fun dict_has :: "json \<Rightarrow> string \<Rightarrow> bool" where
  "dict_has (JDict kvs) key = (map_of kvs key \<noteq> None)"
| "dict_has _ key = False"

fun dict_item :: "json \<Rightarrow> string \<Rightarrow> py_error + json" where
  "dict_item (JDict kvs) key =
     (case map_of kvs key of Some v \<Rightarrow> Inr v | None \<Rightarrow> Inl KeyError)"
| "dict_item _ key = Inl TypeError"

fun is_list :: "json \<Rightarrow> bool" where
  "is_list (JList xs) = True"
| "is_list _ = False"

section \<open>Python dictionaries keyed by decoded values\<close>

text \<open>
  Lists and dictionaries are unhashable and cannot be keys. Among the hashable values
  Python's key equality identifies numbers of equal value (\<^verbatim>\<open>1 == 1.0 == True\<close>, an
  int and a float being compared exactly); every other pair of keys is equal only when
  identical. The identity of objects is not represented: two NaN keys are different keys.
\<close>

fun py_hashable :: "json \<Rightarrow> bool" where
  "py_hashable (JList xs) = False"
| "py_hashable (JDict kvs) = False"
| "py_hashable _ = True"

definition exact_int :: "int \<Rightarrow> float64" where
  "exact_int n = (case strip_zeros \<bar>n\<bar> 0 of (m, e) \<Rightarrow> Finite (n < 0) m e)"

fun key_num :: "json \<Rightarrow> float64 option" where
  "key_num (JBool b) = Some (Finite False (if b then 1 else 0) 0)"
| "key_num (JInt n) = Some (exact_int n)"
| "key_num (JFloat r) = Some r"
| "key_num _ = None"

definition py_key_eq :: "json \<Rightarrow> json \<Rightarrow> bool" where
  "py_key_eq a b =
     (case (key_num a, key_num b) of
        (Some x, Some y) \<Rightarrow> float_eq x y
      | (None, None) \<Rightarrow> a = b
      | _ \<Rightarrow> False)"

text \<open>
  \<^verbatim>\<open>d[k] = v\<close> on an insertion-ordered dictionary: an existing key keeps its place
  and takes the new value, a new key goes to the end.
\<close>

fun dict_set :: "(json \<times> 'v) list \<Rightarrow> json \<Rightarrow> 'v \<Rightarrow> (json \<times> 'v) list" where
  "dict_set [] k v = [(k, v)]"
| "dict_set ((k', v') # rest) k v =
     (if py_key_eq k' k then (k', v) # rest else (k', v') # dict_set rest k v)"

section \<open>Balance-delta extraction: \<^verbatim>\<open>_analyze_balance_changes\<close>\<close>

text \<open>The inner dictionary \<^verbatim>\<open>{"pre_balance": .., "post_balance": .., "change": ..}\<close>.\<close>

record balance_change =
  pre_balance :: float64
  post_balance :: float64
  change :: float64

type_synonym changes = "(json \<times> balance_change) list"

text \<open>
  One iteration of \<^verbatim>\<open>for i in range(len(pre_balances))\<close> (lines 132 to 144):
  \<^verbatim>\<open>continue\<close> when \<open>i\<close> is beyond the post balances or the account keys, otherwise
  divide both balances by \<^verbatim>\<open>1e9\<close>, subtract, and store an entry under
  \<^verbatim>\<open>account_keys[i]\<close> when the magnitude of the change reaches
  \<^verbatim>\<open>min_amount_threshold\<close>. Each of the three operations rounds to binary64.
\<close>

definition analyze_step ::
  "float64 \<Rightarrow> json \<Rightarrow> json \<Rightarrow> json \<Rightarrow> nat \<Rightarrow> changes \<Rightarrow> py_error + changes" where
  "analyze_step min_amount_threshold pre_balances post_balances account_keys i changes =
     bind_err (py_len post_balances) (\<lambda>n_post.
       if i \<ge> n_post then Inr changes
       else bind_err (py_len account_keys) (\<lambda>n_keys.
         if i \<ge> n_keys then Inr changes
         else
           bind_err (py_getitem pre_balances i) (\<lambda>a.
           bind_err (py_truediv a f_1e9) (\<lambda>pre_bal.
           bind_err (py_getitem post_balances i) (\<lambda>b.
           bind_err (py_truediv b f_1e9) (\<lambda>post_bal.
             let chg = float_sub post_bal pre_bal
             in if float_ge (float_abs chg) min_amount_threshold
                then bind_err (py_getitem account_keys i) (\<lambda>k.
                       if py_hashable k
                       then Inr (dict_set changes k
                              \<lparr>pre_balance = pre_bal, post_balance = post_bal, change = chg\<rparr>)
                       else Inl TypeError)
                else Inr changes))))))"

fun analyze_loop ::
  "float64 \<Rightarrow> json \<Rightarrow> json \<Rightarrow> json \<Rightarrow> nat list \<Rightarrow> changes \<Rightarrow> py_error + changes" where
  "analyze_loop thr pre post keys [] changes = Inr changes"
| "analyze_loop thr pre post keys (i # rest) changes =
     bind_err (analyze_step thr pre post keys i changes)
       (\<lambda>changes'. analyze_loop thr pre post keys rest changes')"

definition analyze_balance_changes ::
  "float64 \<Rightarrow> json \<Rightarrow> json \<Rightarrow> json \<Rightarrow> py_error + changes" where
  "analyze_balance_changes min_amount_threshold pre_balances post_balances account_keys =
     bind_err (py_len pre_balances) (\<lambda>n.
       analyze_loop min_amount_threshold pre_balances post_balances account_keys [0..<n] [])"

section \<open>Transfer matching: \<^verbatim>\<open>_parse_transaction\<close>\<close>

text \<open>
  An element of \<^verbatim>\<open>significant_transfers\<close>: the dictionary
  \<^verbatim>\<open>{"account": .., "change": .., "details": ..}\<close>; its \<^verbatim>\<open>"change"\<close> is the field
  \<open>transfer_change\<close>.
\<close>

record transfer =
  account :: json
  transfer_change :: float64
  details :: balance_change

text \<open>Lines 170 to 177: the candidates, in the iteration order of the dictionary.\<close>

fun significant_transfers :: "float64 \<Rightarrow> changes \<Rightarrow> transfer list" where
  "significant_transfers thr [] = []"
| "significant_transfers thr ((acc, chs) # rest) =
     (if float_ge (float_abs (change chs)) thr
      then \<lparr>account = acc, transfer_change = change chs, details = chs\<rparr>
             # significant_transfers thr rest
      else significant_transfers thr rest)"

text \<open>Lines 179 to 183: the candidates whose magnitude is within the tolerance of the target.\<close>

fun matches_of :: "float64 \<Rightarrow> float64 \<Rightarrow> transfer list \<Rightarrow> transfer list" where
  "matches_of target_amount tolerance [] = []"
| "matches_of target_amount tolerance (t # ts) =
     (let amount = float_abs (transfer_change t)
      in if float_le (float_abs (float_sub amount target_amount)) tolerance
         then t # matches_of target_amount tolerance ts
         else matches_of target_amount tolerance ts)"

text \<open>
  \<^verbatim>\<open>max(matches, key=...)\<close> on a non-empty list: the running maximum is replaced only
  by an element whose key is strictly greater.
\<close>

fun py_max_key :: "('a \<Rightarrow> float64) \<Rightarrow> 'a \<Rightarrow> 'a list \<Rightarrow> 'a" where
  "py_max_key key best [] = best"
| "py_max_key key best (x # xs) = py_max_key key (if float_gt (key x) (key best) then x else best) xs"

fun best_match_of :: "transfer list \<Rightarrow> transfer option" where
  "best_match_of [] = None"
| "best_match_of (m # ms) = Some (py_max_key (\<lambda>x. float_abs (transfer_change x)) m ms)"

text \<open>Lines 188 to 193: the first candidate on another account that offsets the best match.\<close>

fun find_counterparty :: "float64 \<Rightarrow> transfer \<Rightarrow> transfer list \<Rightarrow> transfer option" where
  "find_counterparty thr best [] = None"
| "find_counterparty thr best (t # ts) =
     (if \<not> py_key_eq (account t) (account best)
         \<and> float_lt (float_abs (float_add (transfer_change t) (transfer_change best))) thr
      then Some t
      else find_counterparty thr best ts)"

text \<open>The dictionary \<^verbatim>\<open>result\<close> of lines 195 to 201.\<close>

record matched_transfer =
  amount :: float64
  sender :: "json option"
  receiver :: "json option"
  fee :: float64
  balance_changes :: changes

definition build_result ::
  "transfer \<Rightarrow> transfer option \<Rightarrow> float64 \<Rightarrow> changes \<Rightarrow> matched_transfer" where
  "build_result best_match counterparty fee_sol bc =
     \<lparr>amount = float_abs (transfer_change best_match),
      sender = (if float_lt (transfer_change best_match) (Finite False 0 0)
                then Some (account best_match)
                else map_option account counterparty),
      receiver = (if float_gt (transfer_change best_match) (Finite False 0 0)
                  then Some (account best_match)
                  else map_option account counterparty),
      fee = fee_sol,
      balance_changes = bc\<rparr>"

text \<open>
  The \<^verbatim>\<open>try\<close> block of \<^verbatim>\<open>_parse_transaction\<close>, in the source's order of
  evaluation, in two parts. \<open>parse_prefix\<close> is lines 149 to 168: it reads the
  metadata, the message, the balances and the account keys and calls the extractor;
  \<open>Inr None\<close> is one of the three \<^verbatim>\<open>return None\<close>, \<open>Inl e\<close> an exception raised
  inside the block.
\<close>

definition parse_prefix :: "float64 \<Rightarrow> json \<Rightarrow> py_error + (json \<times> changes) option" where
  "parse_prefix min_amount_threshold tx =
     bind_err (dict_get tx ''meta'' (JDict [])) (\<lambda>meta.
     bind_err (if dict_has tx ''transaction''
               then bind_err (dict_item tx ''transaction'')
                      (\<lambda>tr. dict_get tr ''message'' (JDict []))
               else dict_get tx ''message'' (JDict [])) (\<lambda>message.
     bind_err (dict_get meta ''err'' JNull) (\<lambda>err.
     if err \<noteq> JNull then Inr None
     else
     bind_err (dict_get meta ''preBalances'' (JList [])) (\<lambda>pre_balances.
     bind_err (dict_get meta ''postBalances'' (JList [])) (\<lambda>post_balances.
     if \<not> truthy pre_balances \<or> \<not> truthy post_balances then Inr None
     else
     bind_err (dict_get message ''accountKeys'' JNull) (\<lambda>ak.
     bind_err (if is_list ak then dict_get message ''accountKeys'' (JList [])
               else dict_get message ''accounts'' (JList [])) (\<lambda>account_keys.
     if \<not> truthy account_keys then Inr None
     else
     bind_err (analyze_balance_changes min_amount_threshold
                 pre_balances post_balances account_keys) (\<lambda>bc.
       Inr (Some (meta, bc))))))))))"

text \<open>
  \<open>match_transfer\<close> is lines 170 to 202: candidates, matches, and when there is a
  match the best match, the counterparty and the result, whose fee
  \<^verbatim>\<open>meta.get("fee", 0) / 1e9\<close> raises on a fee that is not a number.
\<close>

definition match_transfer ::
  "float64 \<Rightarrow> json \<Rightarrow> changes \<Rightarrow> float64 \<Rightarrow> float64 \<Rightarrow>
     py_error + matched_transfer option" where
  "match_transfer min_amount_threshold meta bc target_amount tolerance =
     (let significant = significant_transfers min_amount_threshold bc;
          matches = matches_of target_amount tolerance significant
      in case best_match_of matches of
           None \<Rightarrow> Inr None
         | Some best_match \<Rightarrow>
             let counterparty = find_counterparty min_amount_threshold best_match significant
             in bind_err (dict_get meta ''fee'' (JInt 0)) (\<lambda>fee_raw.
                bind_err (py_truediv fee_raw f_1e9) (\<lambda>fee_sol.
                  Inr (Some (build_result best_match counterparty fee_sol bc)))))"

definition parse_body ::
  "float64 \<Rightarrow> json \<Rightarrow> float64 \<Rightarrow> float64 \<Rightarrow> py_error + matched_transfer option" where
  "parse_body min_amount_threshold tx target_amount tolerance =
     bind_err (parse_prefix min_amount_threshold tx) (\<lambda>p.
       case p of
         None \<Rightarrow> Inr None
       | Some (meta, bc) \<Rightarrow>
           match_transfer min_amount_threshold meta bc target_amount tolerance)"

text \<open>
  \<^verbatim>\<open>_parse_transaction\<close>: any exception of the body is caught by
  \<^verbatim>\<open>except Exception\<close> and the function returns \<^verbatim>\<open>None\<close>.
\<close>

definition parse_transaction ::
  "float64 \<Rightarrow> json \<Rightarrow> float64 \<Rightarrow> float64 \<Rightarrow> matched_transfer option" where
  "parse_transaction min_amount_threshold tx target_amount tolerance =
     (case parse_body min_amount_threshold tx target_amount tolerance of
        Inl e \<Rightarrow> None
      | Inr r \<Rightarrow> r)"

text \<open>
  The intermediate values of \<^verbatim>\<open>_parse_transaction\<close> for a transaction, named so that
  properties can speak of them: the candidates (\<^verbatim>\<open>significant_transfers\<close>), the
  match set (\<^verbatim>\<open>matches\<close>), \<^verbatim>\<open>best_match\<close> and \<^verbatim>\<open>counterparty\<close>. They are empty or
  absent when the function leaves before computing them.
\<close>

definition candidates_of :: "float64 \<Rightarrow> json \<Rightarrow> transfer list" where
  "candidates_of thr tx =
     (case parse_prefix thr tx of
        Inr (Some (meta, bc)) \<Rightarrow> significant_transfers thr bc
      | _ \<Rightarrow> [])"

definition match_set :: "float64 \<Rightarrow> json \<Rightarrow> float64 \<Rightarrow> float64 \<Rightarrow> transfer list" where
  "match_set thr tx target_amount tolerance =
     matches_of target_amount tolerance (candidates_of thr tx)"

definition best_match :: "float64 \<Rightarrow> json \<Rightarrow> float64 \<Rightarrow> float64 \<Rightarrow> transfer option" where
  "best_match thr tx target_amount tolerance =
     best_match_of (match_set thr tx target_amount tolerance)"

definition counterparty_of :: "float64 \<Rightarrow> json \<Rightarrow> float64 \<Rightarrow> float64 \<Rightarrow> transfer option" where
  "counterparty_of thr tx target_amount tolerance =
     (case best_match thr tx target_amount tolerance of
        None \<Rightarrow> None
      | Some b \<Rightarrow> find_counterparty thr b (candidates_of thr tx))"

section \<open>Well-typed inputs\<close>

text \<open>
  The extractor's annotated argument types (\<^verbatim>\<open>List[int]\<close>, \<^verbatim>\<open>List[int]\<close>,
  \<^verbatim>\<open>List[str]\<close>) as decoded values, and what the loop body computes at an index.
  \<open>sol n\<close> is the float \<^verbatim>\<open>n / 1e9\<close>: \<open>n\<close> rounded to binary64, then the quotient
  rounded to binary64. An int is \<open>convertible\<close> when its conversion does not raise.
\<close>

definition int_list :: "int list \<Rightarrow> json" where
  "int_list xs = JList (map JInt xs)"

definition str_list :: "string list \<Rightarrow> json" where
  "str_list xs = JList (map JStr xs)"

definition convertible :: "int \<Rightarrow> bool" where
  "convertible n = (case int_to_float n of Inr x \<Rightarrow> True | Inl e \<Rightarrow> False)"

definition sol :: "int \<Rightarrow> float64" where
  "sol lamports = float_div (py_float lamports 1) f_1e9"

text \<open>
  The balances the loop divides are those at the indices below the three lengths; the
  loop raises OverflowError at the first of them that is not convertible.
\<close>

definition balances_in_range :: "int list \<Rightarrow> int list \<Rightarrow> string list \<Rightarrow> bool" where
  "balances_in_range pre post keys =
     list_all (\<lambda>(a, b). convertible a \<and> convertible b) (take (length keys) (zip pre post))"

text \<open>An index is in order when the loop body does not raise at it.\<close>

definition index_ok :: "int list \<Rightarrow> int list \<Rightarrow> string list \<Rightarrow> nat \<Rightarrow> bool" where
  "index_ok pre post keys i =
     (i < length post \<and> i < length keys \<longrightarrow> convertible (pre ! i) \<and> convertible (post ! i))"

definition qualifies :: "float64 \<Rightarrow> int list \<Rightarrow> int list \<Rightarrow> string list \<Rightarrow> nat \<Rightarrow> bool" where
  "qualifies thr pre post keys i =
     (i < length pre \<and> i < length post \<and> i < length keys
      \<and> float_ge (float_abs (float_sub (sol (post ! i)) (sol (pre ! i)))) thr)"

definition entry_at :: "int list \<Rightarrow> int list \<Rightarrow> nat \<Rightarrow> balance_change" where
  "entry_at pre post i =
     \<lparr>pre_balance = sol (pre ! i), post_balance = sol (post ! i),
      change = float_sub (sol (post ! i)) (sol (pre ! i))\<rparr>"

text \<open>The dictionary after the first \<open>n\<close> iterations on well-typed arguments.\<close>

fun changes_upto :: "float64 \<Rightarrow> int list \<Rightarrow> int list \<Rightarrow> string list \<Rightarrow> nat \<Rightarrow> changes" where
  "changes_upto thr pre post keys 0 = []"
| "changes_upto thr pre post keys (Suc n) =
     (if qualifies thr pre post keys n
      then dict_set (changes_upto thr pre post keys n) (JStr (keys ! n)) (entry_at pre post n)
      else changes_upto thr pre post keys n)"

text \<open>
  A transaction as \<^verbatim>\<open>getBlock\<close> returns it with \<^verbatim>\<open>"encoding": "json"\<close>: a metadata
  object with its error status, and a transaction object with its signatures and its
  message; \<open>mk_tx\<close> is a transaction with no error.
\<close>

definition mk_tx_with ::
  "json \<Rightarrow> json \<Rightarrow> json \<Rightarrow> int list \<Rightarrow> int list \<Rightarrow> string list \<Rightarrow> json" where
  "mk_tx_with err signatures fee_raw pre post keys =
     JDict [(''meta'', JDict [(''err'', err), (''fee'', fee_raw),
                              (''preBalances'', int_list pre),
                              (''postBalances'', int_list post)]),
            (''transaction'', JDict [(''signatures'', signatures),
                                     (''message'', JDict [(''accountKeys'', str_list keys)])])]"

definition mk_tx :: "json \<Rightarrow> json \<Rightarrow> int list \<Rightarrow> int list \<Rightarrow> string list \<Rightarrow> json" where
  "mk_tx signatures fee_raw pre post keys = mk_tx_with JNull signatures fee_raw pre post keys"

section \<open>Reading a transaction\<close>

text \<open>
  The fields \<^verbatim>\<open>_parse_transaction\<close> reads, as functions of the transaction:
  \<open>field\<close> is the lookup of a key in a dictionary, \<open>error_status\<close> is
  \<^verbatim>\<open>meta.get("err")\<close>, \<open>meta_list tx k\<close> is \<^verbatim>\<open>meta.get(k, [])\<close>, \<open>message_of\<close> is the
  message and \<open>account_key_list\<close> the account keys of lines 161 to 163.
\<close>

fun field :: "json \<Rightarrow> string \<Rightarrow> json option" where
  "field (JDict kvs) k = map_of kvs k"
| "field _ k = None"

definition error_status :: "json \<Rightarrow> json" where
  "error_status tx =
     (case field tx ''meta'' of
        None \<Rightarrow> JNull
      | Some meta \<Rightarrow> (case field meta ''err'' of None \<Rightarrow> JNull | Some e \<Rightarrow> e))"

definition meta_list :: "json \<Rightarrow> string \<Rightarrow> json" where
  "meta_list tx k =
     (case field tx ''meta'' of
        None \<Rightarrow> JList []
      | Some meta \<Rightarrow> (case field meta k of None \<Rightarrow> JList [] | Some v \<Rightarrow> v))"

definition message_of :: "json \<Rightarrow> json" where
  "message_of tx =
     (case field tx ''transaction'' of
        Some tr \<Rightarrow> (case field tr ''message'' of None \<Rightarrow> JDict [] | Some m \<Rightarrow> m)
      | None \<Rightarrow> (case field tx ''message'' of None \<Rightarrow> JDict [] | Some m \<Rightarrow> m))"

definition account_key_list :: "json \<Rightarrow> json" where
  "account_key_list tx =
     (case field (message_of tx) ''accountKeys'' of
        Some (JList ks) \<Rightarrow> JList ks
      | _ \<Rightarrow> (case field (message_of tx) ''accounts'' of None \<Rightarrow> JList [] | Some v \<Rightarrow> v))"

text \<open>
  Lines 190 and 191: a candidate \<open>c\<close> offsets the best match \<open>b\<close> when it is on another
  account and the float \<^verbatim>\<open>abs(c["change"] + b["change"])\<close> is below the threshold.
\<close>

definition offsets :: "float64 \<Rightarrow> transfer \<Rightarrow> transfer \<Rightarrow> bool" where
  "offsets thr b c =
     (\<not> py_key_eq (account c) (account b)
      \<and> float_lt (float_abs (float_add (transfer_change c) (transfer_change b))) thr)"

text \<open>Line 182: the float \<^verbatim>\<open>abs(abs(t["change"]) - target_amount)\<close>.\<close>

definition deviation :: "float64 \<Rightarrow> transfer \<Rightarrow> float64" where
  "deviation target_amount t =
     float_abs (float_sub (float_abs (transfer_change t)) target_amount)"

section \<open>Example transactions\<close>

text \<open>
  The example of the specification: \<open>A\<close> goes from \<open>10\<close> to \<open>4.999995\<close> whole coins
  and \<open>B\<close> from \<open>0\<close> to \<open>5.0002\<close>, with a fee of \<open>5000\<close> lamports.
\<close>

definition example_tx :: json where
  "example_tx =
     mk_tx (JList [JStr ''sig'']) (JInt 5000)
       [10000000000, 0] [4999995000, 5000200000] [''A'', ''B'']"

text \<open>Three accounts that start at zero and gain \<open>7.0\<close>, \<open>3.0\<close> and \<open>7.000000001\<close>.\<close>

definition window_tx :: json where
  "window_tx =
     mk_tx (JList [JStr ''sig'']) (JInt 5000)
       [0, 0, 0] [7000000000, 3000000000, 7000000001] [''C'', ''D'', ''E'']"

text \<open>The candidate of an account whose balance goes from \<open>pre\<close> to \<open>post\<close> lamports.\<close>

definition entry :: "int \<Rightarrow> int \<Rightarrow> balance_change" where
  "entry pre post =
     \<lparr>pre_balance = sol pre, post_balance = sol post,
      change = float_sub (sol post) (sol pre)\<rparr>"

definition candidate :: "string \<Rightarrow> int \<Rightarrow> int \<Rightarrow> transfer" where
  "candidate key pre post =
     \<lparr>account = JStr key, transfer_change = float_sub (sol post) (sol pre),
      details = entry pre post\<rparr>"


text \<open>
  The account key \<open>A\<close> at two indices, with changes of \<open>+2.0\<close> and \<open>+3.0\<close>, and an
  account \<open>B\<close> that changes by \<open>-3.0\<close>.
\<close>

definition repeated_key_tx :: json where
  "repeated_key_tx =
     mk_tx (JList [JStr ''sig'']) (JInt 5000)
       [0, 0, 10000000000] [2000000000, 3000000000, 7000000000] [''A'', ''A'', ''B'']"

text \<open>One account that gains \<open>0.3\<close>.\<close>

definition boundary_tx :: json where
  "boundary_tx = mk_tx (JList [JStr ''sig'']) (JInt 5000) [0] [300000000] [''A'']"

section \<open>The RPC client: \<^verbatim>\<open>SolanaRPCClient\<close>\<close>

text \<open>
  A request is the dictionary \<^verbatim>\<open>data\<close> of \<^verbatim>\<open>_make_rpc_request\<close> without its constant
  \<^verbatim>\<open>"jsonrpc"\<close> field. The endpoint is outside the program: it is a function from the
  requests posted so far, the current one last, to what \<^verbatim>\<open>session.post\<close> then does.
  \<open>Raised\<close> is an exception raised by \<^verbatim>\<open>post\<close> or by \<^verbatim>\<open>response.json()\<close>, both
  inside the \<^verbatim>\<open>try\<close>; \<open>Status code body\<close> is a response with a status code and its
  decoded body, a dictionary that has a \<^verbatim>\<open>"result"\<close> (\<open>Result r\<close>) or lacks it
  (\<open>NoResult\<close>). The results have the types the client's annotations give them: a
  slot is an \<^verbatim>\<open>int\<close>, \<^verbatim>\<open>getBlocks\<close> yields a list of slots, \<^verbatim>\<open>getBlockTime\<close> an
  \<^verbatim>\<open>Optional[int]\<close>; the result of \<^verbatim>\<open>getBlock\<close> is any decoded value. There is one
  endpoint function for each method.
\<close>

record rpc_request =
  req_id :: nat
  req_method :: string
  req_params :: "json list"

datatype 'a rpc_body = NoResult | Result 'a

datatype 'a http_result = Raised | Status nat "'a rpc_body"

record server =
  slot_srv :: "rpc_request list \<Rightarrow> int http_result"
  blocks_srv :: "rpc_request list \<Rightarrow> int list http_result"
  time_srv :: "rpc_request list \<Rightarrow> int option http_result"
  block_srv :: "rpc_request list \<Rightarrow> json http_result"

text \<open>
  The state: the client's \<^verbatim>\<open>request_counter\<close> and the requests posted so far. The
  pauses (\<^verbatim>\<open>time.sleep\<close>) and the log messages change neither.
\<close>

record client =
  request_counter :: nat
  posted :: "rpc_request list"

text \<open>
  The loop \<^verbatim>\<open>for attempt in range(3)\<close> of \<^verbatim>\<open>_make_rpc_request\<close> with \<open>n\<close> attempts
  left: a response with status 200 is returned, any other outcome leads to the next
  attempt, and \<^verbatim>\<open>None\<close> is returned after the last one.
\<close>

fun post_attempts ::
  "(rpc_request list \<Rightarrow> 'a http_result) \<Rightarrow> rpc_request \<Rightarrow> nat \<Rightarrow> rpc_request list
     \<Rightarrow> 'a rpc_body option \<times> rpc_request list" where
  "post_attempts srv data 0 log = (None, log)"
| "post_attempts srv data (Suc n) log =
     (case srv (log @ [data]) of
        Status code body \<Rightarrow>
          if code = 200 then (Some body, log @ [data])
          else post_attempts srv data n (log @ [data])
      | Raised \<Rightarrow> post_attempts srv data n (log @ [data]))"

definition make_rpc_request ::
  "(rpc_request list \<Rightarrow> 'a http_result) \<Rightarrow> client \<Rightarrow> string \<Rightarrow> json list
     \<Rightarrow> 'a rpc_body option \<times> client" where
  "make_rpc_request srv st method params =
     (let counter = request_counter st + 1;
          data = \<lparr>req_id = counter, req_method = method, req_params = params\<rparr>;
          (response, log) = post_attempts srv data 3 (posted st)
      in (response, \<lparr>request_counter = counter, posted = log\<rparr>))"

definition finalized :: json where
  "finalized = JDict [(''commitment'', JStr ''finalized'')]"

text \<open>\<^verbatim>\<open>get_latest_block\<close>: \<^verbatim>\<open>response.get("result", 0) if response else 0\<close>.\<close>

definition get_latest_block :: "server \<Rightarrow> client \<Rightarrow> int \<times> client" where
  "get_latest_block srv st =
     (let (response, st') = make_rpc_request (slot_srv srv) st ''getSlot'' [finalized]
      in (case response of Some (Result r) \<Rightarrow> r | _ \<Rightarrow> 0, st'))"

text \<open>\<^verbatim>\<open>get_block_time\<close>: \<^verbatim>\<open>response.get("result") if response else None\<close>.\<close>

definition get_block_time :: "server \<Rightarrow> client \<Rightarrow> int \<Rightarrow> int option \<times> client" where
  "get_block_time srv st slot =
     (let (response, st') = make_rpc_request (time_srv srv) st ''getBlockTime'' [JInt slot]
      in (case response of Some (Result r) \<Rightarrow> r | _ \<Rightarrow> None, st'))"

text \<open>
  The loop of lines 87 to 90: a slot is appended with its block time when the block
  time is truthy, that is neither \<^verbatim>\<open>None\<close> nor \<open>0\<close>.
\<close>

fun collect_block_times ::
  "server \<Rightarrow> client \<Rightarrow> int list \<Rightarrow> (int \<times> int) list \<Rightarrow> (int \<times> int) list \<times> client" where
  "collect_block_times srv st [] blocks = (blocks, st)"
| "collect_block_times srv st (slot # rest) blocks =
     (let (block_time, st') = get_block_time srv st slot
      in case block_time of
           Some t \<Rightarrow>
             if t \<noteq> 0 then collect_block_times srv st' rest (blocks @ [(slot, t)])
             else collect_block_times srv st' rest blocks
         | None \<Rightarrow> collect_block_times srv st' rest blocks)"

text \<open>
  \<^verbatim>\<open>sorted(blocks, reverse=True)\<close> on pairs of ints, which Python compares
  lexicographically: the order is total and two pairs that compare equal are the same
  pair, so the descending stable sort is the reverse of the ascending sort.
\<close>

definition sorted_reverse :: "(int \<times> int) list \<Rightarrow> (int \<times> int) list" where
  "sorted_reverse blocks = rev (sort blocks)"

definition get_recent_blocks :: "server \<Rightarrow> client \<Rightarrow> int \<Rightarrow> (int \<times> int) list \<times> client" where
  "get_recent_blocks srv st limit =
     (let (latest_block, st1) = get_latest_block srv st;
          (response, st2) = make_rpc_request (blocks_srv srv) st1 ''getBlocks''
                              [JInt (latest_block - limit), JInt latest_block, finalized]
      in case response of
           Some (Result slots) \<Rightarrow>
             (let (blocks, st3) = collect_block_times srv st2 slots []
              in (sorted_reverse blocks, st3))
         | _ \<Rightarrow> ([], st2))"

text \<open>
  \<^verbatim>\<open>get_block_transactions\<close>: \<^verbatim>\<open>response["result"].get("transactions", [])\<close> raises
  AttributeError when the result is not a dictionary.
\<close>

definition get_block_transactions :: "server \<Rightarrow> client \<Rightarrow> int \<Rightarrow> (py_error + json) \<times> client" where
  "get_block_transactions srv st slot =
     (let (response, st') = make_rpc_request (block_srv srv) st ''getBlock''
            [JInt slot,
             JDict [(''encoding'', JStr ''json''), (''transactionDetails'', JStr ''full''),
                    (''maxSupportedTransactionVersion'', JInt 0),
                    (''commitment'', JStr ''finalized'')]]
      in (case response of
            Some (Result r) \<Rightarrow> dict_get r ''transactions'' (JList [])
          | _ \<Rightarrow> Inr (JList []), st'))"

section \<open>The scan: \<^verbatim>\<open>scan_for_amount\<close>\<close>

text \<open>The dataclass \<^verbatim>\<open>Transaction\<close>: the fields of the match and three more.\<close>

record transaction = matched_transfer +
  tx_hash :: json
  block_height :: int
  block_time :: int

text \<open>The elements a \<^verbatim>\<open>for\<close> loop visits: those of a list, the characters of a string,
  the keys of a dictionary; TypeError on a value that is not iterable.\<close>

fun py_iter :: "json \<Rightarrow> py_error + json list" where
  "py_iter (JList xs) = Inr xs"
| "py_iter (JStr s) = Inr (map (\<lambda>c. JStr [c]) s)"
| "py_iter (JDict kvs) = Inr (map (\<lambda>kv. JStr (fst kv)) kvs)"
| "py_iter _ = Inl TypeError"

text \<open>
  Line 229, \<^verbatim>\<open>tx.get("transaction", {}).get("signatures", [""])[0]\<close>, which is outside
  any \<^verbatim>\<open>try\<close>.
\<close>

definition first_signature :: "json \<Rightarrow> py_error + json" where
  "first_signature tx =
     bind_err (dict_get tx ''transaction'' (JDict [])) (\<lambda>tr.
     bind_err (dict_get tr ''signatures'' (JList [JStr []])) (\<lambda>sigs.
       py_getitem sigs 0))"

text \<open>The inner loop, lines 225 to 237, over the transactions of one block.\<close>

fun scan_transactions ::
  "float64 \<Rightarrow> float64 \<Rightarrow> float64 \<Rightarrow> int \<Rightarrow> int \<Rightarrow> json list \<Rightarrow> transaction list
     \<Rightarrow> py_error + transaction list" where
  "scan_transactions thr amount_in_sol tolerance slot btime [] matches = Inr matches"
| "scan_transactions thr amount_in_sol tolerance slot btime (tx # rest) matches =
     (case parse_transaction thr tx amount_in_sol tolerance of
        None \<Rightarrow> scan_transactions thr amount_in_sol tolerance slot btime rest matches
      | Some transfer \<Rightarrow>
          bind_err (first_signature tx) (\<lambda>h.
            scan_transactions thr amount_in_sol tolerance slot btime rest
              (matches @ [\<lparr>amount = amount transfer, sender = sender transfer,
                            receiver = receiver transfer, fee = fee transfer,
                            balance_changes = balance_changes transfer,
                            tx_hash = h, block_height = slot, block_time = btime\<rparr>])))"

text \<open>
  The outer loop, lines 218 to 237, over the blocks: \<^verbatim>\<open>len(transactions)\<close> and the
  iteration raise TypeError on a value that has no length or is not iterable.
\<close>

fun scan_blocks ::
  "server \<Rightarrow> float64 \<Rightarrow> client \<Rightarrow> float64 \<Rightarrow> float64 \<Rightarrow> (int \<times> int) list \<Rightarrow> transaction list
     \<Rightarrow> (py_error + transaction list) \<times> client" where
  "scan_blocks srv thr st amount_in_sol tolerance [] matches = (Inr matches, st)"
| "scan_blocks srv thr st amount_in_sol tolerance ((slot, btime) # rest) matches =
     (let (transactions, st') = get_block_transactions srv st slot
      in case bind_err transactions (\<lambda>txs.
              bind_err (py_len txs) (\<lambda>n.
              bind_err (py_iter txs) (\<lambda>items.
                scan_transactions thr amount_in_sol tolerance slot btime items matches))) of
           Inl e \<Rightarrow> (Inl e, st')
         | Inr matches' \<Rightarrow> scan_blocks srv thr st' amount_in_sol tolerance rest matches')"

definition scan_for_amount ::
  "server \<Rightarrow> float64 \<Rightarrow> client \<Rightarrow> float64 \<Rightarrow> int \<Rightarrow> float64
     \<Rightarrow> (py_error + transaction list) \<times> client" where
  "scan_for_amount srv thr st amount_in_sol block_limit tolerance =
     (let (blocks, st1) = get_recent_blocks srv st block_limit
      in if blocks = [] then (Inr [], st1)
         else scan_blocks srv thr st1 amount_in_sol tolerance blocks [])"

section \<open>What the resolver does, said with the replies of the endpoint\<close>

text \<open>
  The requests a computation posts: those added to the history between two states.
\<close>

definition new_requests :: "client \<Rightarrow> client \<Rightarrow> rpc_request list" where
  "new_requests st st' = drop (length (posted st)) (posted st')"

text \<open>
  The range request of \<^verbatim>\<open>get_recent_blocks\<close>: its response and the state after it.
  \<open>range_request\<close> is the request itself, the second one the client numbers, and
  \<open>slot_response\<close> is what \<^verbatim>\<open>_make_rpc_request\<close> returns for \<^verbatim>\<open>getSlot\<close>.
\<close>

definition range_response :: "server \<Rightarrow> client \<Rightarrow> int \<Rightarrow> int list rpc_body option \<times> client" where
  "range_response srv st limit =
     (let (latest_block, st1) = get_latest_block srv st
      in make_rpc_request (blocks_srv srv) st1 ''getBlocks''
           [JInt (latest_block - limit), JInt latest_block, finalized])"

definition slot_response :: "server \<Rightarrow> client \<Rightarrow> int rpc_body option" where
  "slot_response srv st = fst (make_rpc_request (slot_srv srv) st ''getSlot'' [finalized])"

definition range_request :: "server \<Rightarrow> client \<Rightarrow> int \<Rightarrow> rpc_request" where
  "range_request srv st limit =
     \<lparr>req_id = request_counter st + 2, req_method = ''getBlocks'',
      req_params = [JInt (fst (get_latest_block srv st) - limit),
                    JInt (fst (get_latest_block srv st)), finalized]\<rparr>"

text \<open>The block time retrieved for each slot of a list, the requests made in order.\<close>

fun block_time_replies ::
  "server \<Rightarrow> client \<Rightarrow> int list \<Rightarrow> (int \<times> int option) list" where
  "block_time_replies srv st [] = []"
| "block_time_replies srv st (slot # rest) =
     (let (block_time, st') = get_block_time srv st slot
      in (slot, block_time) # block_time_replies srv st' rest)"

text \<open>The slots with a block time that is not zero, each with its block time.\<close>

fun with_time :: "(int \<times> int option) list \<Rightarrow> (int \<times> int) list" where
  "with_time [] = []"
| "with_time ((slot, None) # rest) = with_time rest"
| "with_time ((slot, Some t) # rest) =
     (if t \<noteq> 0 then (slot, t) # with_time rest else with_time rest)"


section \<open>Example endpoints\<close>

text \<open>A client that has made no request yet.\<close>

definition fresh :: client where
  "fresh = \<lparr>request_counter = 0, posted = []\<rparr>"

text \<open>An endpoint that never answers: every \<^verbatim>\<open>post\<close> raises.\<close>

definition srv_down :: server where
  "srv_down =
     \<lparr>slot_srv = (\<lambda>log. Raised), blocks_srv = (\<lambda>log. Raised),
      time_srv = (\<lambda>log. Raised), block_srv = (\<lambda>log. Raised)\<rparr>"

text \<open>
  An endpoint whose latest slot is 100, whose range is the slot 100 alone, and that
  reports the given block time for it and the given result of \<^verbatim>\<open>getBlock\<close>.
  \<open>block_of txs\<close> is a block that holds the transactions \<open>txs\<close>.
\<close>

definition srv_one :: "int option \<Rightarrow> json \<Rightarrow> server" where
  "srv_one t block =
     \<lparr>slot_srv = (\<lambda>log. Status 200 (Result 100)),
      blocks_srv = (\<lambda>log. Status 200 (Result [100])),
      time_srv = (\<lambda>log. Status 200 (Result t)),
      block_srv = (\<lambda>log. Status 200 (Result block))\<rparr>"

definition block_of :: "json list \<Rightarrow> json" where
  "block_of txs = JDict [(''blockHeight'', JInt 90), (''transactions'', JList txs)]"

text \<open>
  An endpoint whose \<^verbatim>\<open>getSlot\<close> answers with status 500 and whose \<^verbatim>\<open>getBlocks\<close>
  yields the given slots, every one with the block time 1700000000.
\<close>

definition srv_no_slot :: "int list \<Rightarrow> server" where
  "srv_no_slot slots =
     \<lparr>slot_srv = (\<lambda>log. Status 500 NoResult),
      blocks_srv = (\<lambda>log. Status 200 (Result slots)),
      time_srv = (\<lambda>log. Status 200 (Result (Some 1700000000))),
      block_srv = (\<lambda>log. Status 200 (Result (JDict [(''transactions'', JList [])])))\<rparr>"

text \<open>The transfer of the example with a signature list that is present but empty.\<close>

definition unsigned_tx :: json where
  "unsigned_tx =
     mk_tx (JList []) (JInt 5000) [10000000000, 0] [4999995000, 5000200000] [''A'', ''B'']"

section \<open>Properties of the extractor\<close>

lemma bind_err_Inr: "bind_err (Inr x) f = f x"
  by (simp add: bind_err_def)

lemma bind_err_Inl: "bind_err (Inl e) f = Inl e"
  by (simp add: bind_err_def)

lemma py_key_eq_JStr: "py_key_eq k (JStr s) = (k = JStr s)"
  by (cases k) (auto simp: py_key_eq_def)

lemma int_to_float_cases:
  "int_to_float n = Inl OverflowError \<or> int_to_float n = Inr (py_float n 1)"
  by (simp add: int_to_float_def py_float_def split: float64.splits)

lemma truediv_convertible:
  "convertible n \<Longrightarrow> py_truediv (JInt n) f_1e9 = Inr (sol n)"
  using int_to_float_cases [of n]
  by (auto simp: convertible_def py_truediv_def sol_def f_1e9_def bind_err_def)

lemma truediv_not_convertible:
  "\<not> convertible n \<Longrightarrow> py_truediv (JInt n) f_1e9 = Inl OverflowError"
  using int_to_float_cases [of n]
  by (auto simp: convertible_def py_truediv_def bind_err_def)

lemma analyze_step_typed:
  assumes "i < length pre"
  shows "analyze_step thr (int_list pre) (int_list post) (str_list keys) i c =
     (if index_ok pre post keys i
      then Inr (if qualifies thr pre post keys i
                then dict_set c (JStr (keys ! i)) (entry_at pre post i) else c)
      else Inl OverflowError)"
proof (cases "i < length post \<and> i < length keys")
  case False
  then show ?thesis
    using assms
    by (auto simp: analyze_step_def int_list_def str_list_def qualifies_def index_ok_def
          bind_err_Inr)
next
  case True
  note lt = True
  show ?thesis
  proof (cases "convertible (pre ! i)")
    case False
    with lt assms show ?thesis
      by (simp add: analyze_step_def int_list_def str_list_def index_ok_def bind_err_Inr
            bind_err_Inl truediv_not_convertible)
  next
    case True
    note cp = True
    show ?thesis
    proof (cases "convertible (post ! i)")
      case False
      with lt cp assms show ?thesis
        by (simp add: analyze_step_def int_list_def str_list_def index_ok_def bind_err_Inr
              bind_err_Inl truediv_not_convertible truediv_convertible)
    next
      case True
      with lt cp assms show ?thesis
        by (simp add: analyze_step_def int_list_def str_list_def index_ok_def bind_err_Inr
              truediv_convertible qualifies_def entry_at_def Let_def)
    qed
  qed
qed

lemma analyze_loop_append:
  "analyze_loop thr p q k (xs @ ys) c =
     bind_err (analyze_loop thr p q k xs c) (analyze_loop thr p q k ys)"
proof (induction xs arbitrary: c)
  case Nil
  show ?case by (simp add: bind_err_Inr)
next
  case (Cons x xs)
  show ?case
    by (cases "analyze_step thr p q k x c") (simp_all add: bind_err_Inl bind_err_Inr Cons.IH)
qed

lemma analyze_loop_typed:
  "n \<le> length pre \<Longrightarrow>
   analyze_loop thr (int_list pre) (int_list post) (str_list keys) [0..<n] [] =
     (if \<forall>i<n. index_ok pre post keys i
      then Inr (changes_upto thr pre post keys n) else Inl OverflowError)"
proof (induction n)
  case 0
  show ?case by simp
next
  case (Suc n)
  then have lt: "n < length pre" and le: "n \<le> length pre" by simp_all
  have all: "(\<forall>i<Suc n. index_ok pre post keys i) =
               ((\<forall>i<n. index_ok pre post keys i) \<and> index_ok pre post keys n)"
    by (auto simp: less_Suc_eq)
  show ?case
    unfolding all
    by (simp add: analyze_loop_append Suc.IH [OF le] bind_err_Inr bind_err_Inl
          analyze_step_typed [OF lt])
qed

lemma balances_in_range_index:
  "balances_in_range pre post keys = (\<forall>i<length pre. index_ok pre post keys i)"
proof -
  have "balances_in_range pre post keys =
          (\<forall>i<length (take (length keys) (zip pre post)).
              convertible (fst (take (length keys) (zip pre post) ! i))
              \<and> convertible (snd (take (length keys) (zip pre post) ! i)))"
    by (simp add: balances_in_range_def list_all_length case_prod_beta del: length_take nth_take)
  also have "\<dots> = (\<forall>i. i < length pre \<and> i < length post \<and> i < length keys \<longrightarrow>
                        convertible (pre ! i) \<and> convertible (post ! i))"
    by auto
  also have "\<dots> = (\<forall>i<length pre. index_ok pre post keys i)"
    by (auto simp: index_ok_def)
  finally show ?thesis .
qed

lemma analyze_typed:
  "analyze_balance_changes thr (int_list pre) (int_list post) (str_list keys) =
     (if balances_in_range pre post keys
      then Inr (changes_upto thr pre post keys (length pre)) else Inl OverflowError)"
  unfolding balances_in_range_index
  by (simp add: analyze_balance_changes_def int_list_def bind_err_Inr
        analyze_loop_typed [unfolded int_list_def])

lemma fst_set_dict_set_JStr:
  "set (map fst (dict_set c (JStr s) v)) = insert (JStr s) (set (map fst c))"
proof (induction c)
  case Nil
  show ?case by simp
next
  case (Cons a c)
  obtain k w where a: "a = (k, w)" by (cases a)
  show ?case
  proof (cases "k = JStr s")
    case True
    with a show ?thesis by (simp add: py_key_eq_JStr)
  next
    case False
    have "set (map fst (dict_set (a # c) (JStr s) v)) = insert k (set (map fst (dict_set c (JStr s) v)))"
      using a False by (simp add: py_key_eq_JStr)
    also have "\<dots> = insert k (insert (JStr s) (set (map fst c)))"
      by (simp only: Cons.IH)
    also have "\<dots> = insert (JStr s) (set (map fst (a # c)))"
      using a by auto
    finally show ?thesis .
  qed
qed

lemma map_of_dict_set_JStr:
  "map_of (dict_set c (JStr s) v) = (map_of c)(JStr s \<mapsto> v)"
  by (induction c) (auto simp: py_key_eq_JStr fun_eq_iff)

lemma distinct_dict_set_JStr:
  "distinct (map fst c) \<Longrightarrow> distinct (map fst (dict_set c (JStr s) v))"
proof (induction c)
  case Nil
  show ?case by simp
next
  case (Cons a c)
  obtain k w where a: "a = (k, w)" by (cases a)
  from Cons.prems a have k: "k \<notin> set (map fst c)" and d: "distinct (map fst c)" by simp_all
  show ?case
  proof (cases "k = JStr s")
    case True
    with a k d show ?thesis by (simp add: py_key_eq_JStr)
  next
    case False
    with a k d Cons.IH show ?thesis
      by (simp add: py_key_eq_JStr fst_set_dict_set_JStr del: set_map)
  qed
qed

lemma keys_changes_upto:
  "set (map fst (changes_upto thr pre post keys n)) =
     {JStr (keys ! i) | i. i < n \<and> qualifies thr pre post keys i}"
proof (induction n)
  case 0
  show ?case by simp
next
  case (Suc n)
  show ?case
    by (auto simp: Suc.IH fst_set_dict_set_JStr less_Suc_eq simp del: set_map)
qed

lemma lookup_changes_upto:
  assumes "i < n" "qualifies thr pre post keys i"
    and "\<And>j. i < j \<Longrightarrow> j < n \<Longrightarrow> qualifies thr pre post keys j \<Longrightarrow> keys ! j \<noteq> keys ! i"
  shows "map_of (changes_upto thr pre post keys n) (JStr (keys ! i)) = Some (entry_at pre post i)"
  using assms
proof (induction n)
  case 0
  then show ?case by simp
next
  case (Suc n)
  show ?case
  proof (cases "i = n")
    case True
    with Suc.prems show ?thesis by (simp add: map_of_dict_set_JStr)
  next
    case False
    with Suc.prems have lt: "i < n" by simp
    have ih: "map_of (changes_upto thr pre post keys n) (JStr (keys ! i)) = Some (entry_at pre post i)"
      using Suc.IH [OF lt Suc.prems(2)] Suc.prems(3) by simp
    show ?thesis
    proof (cases "qualifies thr pre post keys n")
      case True
      with Suc.prems(3) [of n] lt have "keys ! n \<noteq> keys ! i" by simp
      with True ih show ?thesis by (simp add: map_of_dict_set_JStr)
    next
      case False
      with ih show ?thesis by simp
    qed
  qed
qed

lemma distinct_changes_upto:
  "distinct (map fst (changes_upto thr pre post keys n))"
  by (induction n) (simp_all add: distinct_dict_set_JStr)

text \<open>
  Claim C1, as the code has it. The quotients and the difference are the binary64
  ones: \<open>sol n\<close> is \<^verbatim>\<open>n / 1e9\<close> as Python computes it, and an index \<open>i\<close> qualifies when
  it is below the length of all three lists and the float
  \<^verbatim>\<open>abs(post[i]/1e9 - pre[i]/1e9)\<close> compares \<^verbatim>\<open>>=\<close> to \<open>min_threshold\<close> (the boundary,
  where the two floats are equal, is included). On integer balance lists and a string
  key list the extractor raises OverflowError when a balance at an index below the three
  lengths is too large to convert to a float, and raises nothing otherwise. When it
  returns, its dictionary holds a key exactly when some qualifying index carries that
  key; the entry stored under \<open>account_keys[i]\<close> is \<open>pre[i]/1e9\<close>, \<open>post[i]/1e9\<close> and
  their difference when \<open>i\<close> is the last qualifying index that carries the key. When
  the key list has no repetition this is the claim index by index: \<open>account_keys[i]\<close>
  is a key of the output exactly when \<open>i\<close> qualifies, and its entry is that of \<open>i\<close>.
\<close>

theorem extractor_keys_and_entries:
  "(balances_in_range pre post keys \<longrightarrow>
     (\<exists>changes.
        analyze_balance_changes thr (int_list pre) (int_list post) (str_list keys) = Inr changes
        \<and> (\<forall>k. (k \<in> set (map fst changes)) =
                 (\<exists>i. qualifies thr pre post keys i \<and> k = JStr (keys ! i)))
        \<and> (\<forall>i. qualifies thr pre post keys i
                 \<and> (\<forall>j. i < j \<and> qualifies thr pre post keys j \<longrightarrow> keys ! j \<noteq> keys ! i)
               \<longrightarrow> map_of changes (JStr (keys ! i)) = Some (entry_at pre post i))
        \<and> (distinct keys \<longrightarrow>
             (\<forall>i. i < length keys \<longrightarrow>
                (JStr (keys ! i) \<in> set (map fst changes)) = qualifies thr pre post keys i
                \<and> (qualifies thr pre post keys i \<longrightarrow>
                     map_of changes (JStr (keys ! i)) = Some (entry_at pre post i))))))
   \<and> (\<not> balances_in_range pre post keys \<longrightarrow>
        analyze_balance_changes thr (int_list pre) (int_list post) (str_list keys)
          = Inl OverflowError)"
proof -
  let ?c = "changes_upto thr pre post keys (length pre)"
  have q_lt: "\<And>i. qualifies thr pre post keys i \<Longrightarrow> i < length pre"
    by (simp add: qualifies_def)
  have keys_eq: "\<And>k. (k \<in> set (map fst ?c)) =
                   (\<exists>i. qualifies thr pre post keys i \<and> k = JStr (keys ! i))"
    using q_lt by (auto simp: keys_changes_upto simp del: set_map)
  have look: "\<And>i. qualifies thr pre post keys i \<Longrightarrow>
                  (\<forall>j. i < j \<and> qualifies thr pre post keys j \<longrightarrow> keys ! j \<noteq> keys ! i) \<Longrightarrow>
                  map_of ?c (JStr (keys ! i)) = Some (entry_at pre post i)"
    by (rule lookup_changes_upto) (auto dest: q_lt)
  have dist: "distinct keys \<Longrightarrow> i < length keys \<Longrightarrow>
                (JStr (keys ! i) \<in> set (map fst ?c)) = qualifies thr pre post keys i
                \<and> (qualifies thr pre post keys i \<longrightarrow>
                     map_of ?c (JStr (keys ! i)) = Some (entry_at pre post i))" for i
  proof -
    assume d: "distinct keys" and i: "i < length keys"
    have uniq: "\<And>j. qualifies thr pre post keys j \<Longrightarrow> keys ! j = keys ! i \<Longrightarrow> j = i"
      using d i by (auto simp: qualifies_def nth_eq_iff_index_eq)
    have a: "(JStr (keys ! i) \<in> set (map fst ?c)) = qualifies thr pre post keys i"
      unfolding keys_eq using uniq by auto
    have b: "qualifies thr pre post keys i \<longrightarrow>
               map_of ?c (JStr (keys ! i)) = Some (entry_at pre post i)"
      using look [of i] uniq by auto
    from a b show ?thesis by simp
  qed
  have ok: "balances_in_range pre post keys \<longrightarrow>
     (\<exists>changes.
        analyze_balance_changes thr (int_list pre) (int_list post) (str_list keys) = Inr changes
        \<and> (\<forall>k. (k \<in> set (map fst changes)) =
                 (\<exists>i. qualifies thr pre post keys i \<and> k = JStr (keys ! i)))
        \<and> (\<forall>i. qualifies thr pre post keys i
                 \<and> (\<forall>j. i < j \<and> qualifies thr pre post keys j \<longrightarrow> keys ! j \<noteq> keys ! i)
               \<longrightarrow> map_of changes (JStr (keys ! i)) = Some (entry_at pre post i))
        \<and> (distinct keys \<longrightarrow>
             (\<forall>i. i < length keys \<longrightarrow>
                (JStr (keys ! i) \<in> set (map fst changes)) = qualifies thr pre post keys i
                \<and> (qualifies thr pre post keys i \<longrightarrow>
                     map_of changes (JStr (keys ! i)) = Some (entry_at pre post i)))))"
  proof
    assume r: "balances_in_range pre post keys"
    have eq: "analyze_balance_changes thr (int_list pre) (int_list post) (str_list keys) = Inr ?c"
      using r by (simp add: analyze_typed)
    show "\<exists>changes.
        analyze_balance_changes thr (int_list pre) (int_list post) (str_list keys) = Inr changes
        \<and> (\<forall>k. (k \<in> set (map fst changes)) =
                 (\<exists>i. qualifies thr pre post keys i \<and> k = JStr (keys ! i)))
        \<and> (\<forall>i. qualifies thr pre post keys i
                 \<and> (\<forall>j. i < j \<and> qualifies thr pre post keys j \<longrightarrow> keys ! j \<noteq> keys ! i)
               \<longrightarrow> map_of changes (JStr (keys ! i)) = Some (entry_at pre post i))
        \<and> (distinct keys \<longrightarrow>
             (\<forall>i. i < length keys \<longrightarrow>
                (JStr (keys ! i) \<in> set (map fst changes)) = qualifies thr pre post keys i
                \<and> (qualifies thr pre post keys i \<longrightarrow>
                     map_of changes (JStr (keys ! i)) = Some (entry_at pre post i))))"
      unfolding eq
      using keys_eq look dist by (intro exI [of _ ?c] conjI) blast+
  qed
  have bad: "\<not> balances_in_range pre post keys \<longrightarrow>
        analyze_balance_changes thr (int_list pre) (int_list post) (str_list keys)
          = Inl OverflowError"
    by (simp add: analyze_typed)
  from ok bad show ?thesis by (rule conjI)
qed

text \<open>
  The witness of C1, at threshold \<open>1.0\<close>. Balances \<open>0 \<rightarrow> 1000000000\<close> give the float
  \<open>1.0\<close>, equal to the threshold, and the key is included. Balances
  \<open>2 \<rightarrow> 1000000002\<close> give the float \<open>0.9999999999999999\<close>, because each quotient is
  rounded before the subtraction, and the key is excluded.
\<close>

theorem extractor_keys_and_entries_witness:
  "balances_in_range [0, 2] [1000000000, 1000000002] [''A'', ''B'']
   \<and> (\<exists>changes.
        analyze_balance_changes (Finite False 1 0) (int_list [0, 2])
           (int_list [1000000000, 1000000002]) (str_list [''A'', ''B'']) = Inr changes
        \<and> JStr ''A'' \<in> set (map fst changes)
        \<and> JStr ''B'' \<notin> set (map fst changes)
        \<and> map_of changes (JStr ''A'')
            = Some \<lparr>pre_balance = Finite False 0 0, post_balance = Finite False 1 0,
                     change = Finite False 1 0\<rparr>)
   \<and> qualifies (Finite False 1 0) [0, 2] [1000000000, 1000000002] [''A'', ''B''] 0
   \<and> \<not> qualifies (Finite False 1 0) [0, 2] [1000000000, 1000000002] [''A'', ''B''] 1
   \<and> float_sub (sol 1000000002) (sol 2) = Finite False 9007199254740991 (- 53)"
proof -
  let ?pre = "[0, 2] :: int list" and ?post = "[1000000000, 1000000002] :: int list"
  let ?keys = "[''A'', ''B'']"
  let ?thr = "Finite False 1 0"
  have r: "balances_in_range ?pre ?post ?keys" by code_simp
  have q0: "qualifies ?thr ?pre ?post ?keys 0" by code_simp
  have q1: "\<not> qualifies ?thr ?pre ?post ?keys 1" by code_simp
  have e0: "entry_at ?pre ?post 0
     = \<lparr>pre_balance = Finite False 0 0, post_balance = Finite False 1 0,
        change = Finite False 1 0\<rparr>"
    by code_simp
  have v: "float_sub (sol 1000000002) (sol 2) = Finite False 9007199254740991 (- 53)"
    by code_simp
  have d: "distinct ?keys" by simp
  from extractor_keys_and_entries [of ?pre ?post ?keys ?thr] r
  obtain changes where
    c: "analyze_balance_changes ?thr (int_list ?pre) (int_list ?post) (str_list ?keys) = Inr changes"
    and k: "distinct ?keys \<longrightarrow>
          (\<forall>i. i < length ?keys \<longrightarrow>
             (JStr (?keys ! i) \<in> set (map fst changes)) = qualifies ?thr ?pre ?post ?keys i
             \<and> (qualifies ?thr ?pre ?post ?keys i \<longrightarrow>
                  map_of changes (JStr (?keys ! i)) = Some (entry_at ?pre ?post i)))"
    by blast
  from k d have all: "\<And>i. i < length ?keys \<Longrightarrow>
             (JStr (?keys ! i) \<in> set (map fst changes)) = qualifies ?thr ?pre ?post ?keys i
             \<and> (qualifies ?thr ?pre ?post ?keys i \<longrightarrow>
                  map_of changes (JStr (?keys ! i)) = Some (entry_at ?pre ?post i))"
    by blast
  have k0: "(JStr ''A'' \<in> set (map fst changes)) = qualifies ?thr ?pre ?post ?keys 0
      \<and> (qualifies ?thr ?pre ?post ?keys 0 \<longrightarrow>
                  map_of changes (JStr ''A'') = Some (entry_at ?pre ?post 0))"
    using all [of 0] by simp
  have k1: "(JStr ''B'' \<in> set (map fst changes)) = qualifies ?thr ?pre ?post ?keys 1"
    using all [of 1] by simp
  from k0 q0 e0 have a: "JStr ''A'' \<in> set (map fst changes)"
    and m: "map_of changes (JStr ''A'')
            = Some \<lparr>pre_balance = Finite False 0 0, post_balance = Finite False 1 0,
                     change = Finite False 1 0\<rparr>"
    by simp_all
  from k1 q1 have b: "JStr ''B'' \<notin> set (map fst changes)" by simp
  from c a b m have ex: "\<exists>changes.
        analyze_balance_changes ?thr (int_list ?pre) (int_list ?post) (str_list ?keys) = Inr changes
        \<and> JStr ''A'' \<in> set (map fst changes)
        \<and> JStr ''B'' \<notin> set (map fst changes)
        \<and> map_of changes (JStr ''A'')
            = Some \<lparr>pre_balance = Finite False 0 0, post_balance = Finite False 1 0,
                     change = Finite False 1 0\<rparr>"
    by blast
  from r ex q0 q1 v show ?thesis by (intro conjI)
qed

text \<open>
  C1 as stated fails on a repeated key. With keys \<open>[A, A]\<close> and threshold \<open>1.0\<close>: when
  both indices qualify, the entry under \<open>account_keys[0]\<close> is that of index 1 (post
  balance \<open>3.0\<close>), not \<open>pre[0]/1e9\<close>, \<open>post[0]/1e9\<close> (post balance \<open>2.0\<close>, which is
  \<open>1 \<sdot> 2\<^sup>1\<close>); and when only index 1 qualifies, \<open>account_keys[0]\<close> is in the output
  although index 0 does not qualify.
\<close>

theorem extractor_duplicate_key_counterexample:
  "analyze_balance_changes (Finite False 1 0) (int_list [0, 0]) (int_list [2000000000, 3000000000])
      (str_list [''A'', ''A''])
     = Inr [(JStr ''A'', \<lparr>pre_balance = Finite False 0 0, post_balance = Finite False 3 0,
                          change = Finite False 3 0\<rparr>)]
   \<and> qualifies (Finite False 1 0) [0, 0] [2000000000, 3000000000] [''A'', ''A''] 0
   \<and> entry_at [0, 0] [2000000000, 3000000000] 0
       = \<lparr>pre_balance = Finite False 0 0, post_balance = Finite False 1 1,
          change = Finite False 1 1\<rparr>
   \<and> analyze_balance_changes (Finite False 1 0) (int_list [0, 0]) (int_list [0, 2000000000])
      (str_list [''A'', ''A''])
     = Inr [(JStr ''A'', \<lparr>pre_balance = Finite False 0 0, post_balance = Finite False 1 1,
                          change = Finite False 1 1\<rparr>)]
   \<and> [''A'', ''A''] ! 0 = ''A''
   \<and> \<not> qualifies (Finite False 1 0) [0, 0] [0, 2000000000] [''A'', ''A''] 0"
  by code_simp

section \<open>Properties of the matcher\<close>

lemma matches_of_filter:
  "matches_of T tol ts = filter (\<lambda>t. float_le (deviation T t) tol) ts"
  by (induction ts) (simp_all add: Let_def deviation_def)

lemma float_lt_asym: "float_lt x y \<Longrightarrow> \<not> float_lt y x"
  by (cases x; cases y) auto

lemma float_lt_not_eq: "float_lt x y \<Longrightarrow> \<not> float_eq y x"
  by (cases x; cases y) auto

lemma parse_transaction_unfold:
  "parse_transaction thr tx T tol =
     (case parse_prefix thr tx of
        Inr (Some (meta, bc)) \<Rightarrow>
          (case best_match thr tx T tol of
             None \<Rightarrow> None
           | Some b \<Rightarrow>
               (case bind_err (dict_get meta ''fee'' (JInt 0)) (\<lambda>f. py_truediv f f_1e9) of
                  Inl e \<Rightarrow> None
                | Inr f \<Rightarrow> Some (build_result b (counterparty_of thr tx T tol) f bc)))
      | _ \<Rightarrow> None)"
  by (auto simp: parse_transaction_def parse_body_def match_transfer_def best_match_def
        match_set_def candidates_of_def counterparty_of_def bind_err_def Let_def
        split: sum.splits option.splits prod.splits)

lemma parse_transaction_no_match:
  "match_set thr tx T tol = [] \<Longrightarrow> parse_transaction thr tx T tol = None"
  by (simp add: parse_transaction_unfold best_match_def split: sum.splits option.splits prod.splits)

lemma parse_transaction_result:
  "best_match thr tx T tol = Some b \<Longrightarrow> parse_transaction thr tx T tol = Some r \<Longrightarrow>
     r = build_result b (counterparty_of thr tx T tol) (fee r) (balance_changes r)"
  by (auto simp: parse_transaction_unfold build_result_def split: sum.splits option.splits prod.splits)

lemma find_counterparty_first:
  "case find_counterparty thr b ts of
     None \<Rightarrow> (\<forall>c \<in> set ts. \<not> offsets thr b c)
   | Some c \<Rightarrow> (\<exists>before after. ts = before @ c # after \<and> offsets thr b c
                  \<and> (\<forall>x \<in> set before. \<not> offsets thr b x))"
proof (induction ts)
  case Nil
  show ?case by simp
next
  case (Cons t ts)
  show ?case
  proof (cases "offsets thr b t")
    case True
    then have eq: "find_counterparty thr b (t # ts) = Some t" by (simp add: offsets_def)
    have "t # ts = [] @ t # ts \<and> offsets thr b t \<and> (\<forall>x \<in> set []. \<not> offsets thr b x)"
      using True by simp
    then have "\<exists>before after. t # ts = before @ t # after \<and> offsets thr b t
                  \<and> (\<forall>x \<in> set before. \<not> offsets thr b x)"
      by (intro exI)
    then show ?thesis unfolding eq by simp
  next
    case False
    then have eq: "find_counterparty thr b (t # ts) = find_counterparty thr b ts"
      by (auto simp: offsets_def)
    show ?thesis
    proof (cases "find_counterparty thr b ts")
      case None
      with Cons.IH False eq show ?thesis by simp
    next
      case (Some c)
      with Cons.IH obtain before after where
        ts: "ts = before @ c # after" and oc: "offsets thr b c"
        and nb: "\<forall>x \<in> set before. \<not> offsets thr b x"
        by auto
      have "t # ts = (t # before) @ c # after" using ts by simp
      moreover have "\<forall>x \<in> set (t # before). \<not> offsets thr b x" using nb False by simp
      ultimately have "t # ts = (t # before) @ c # after \<and> offsets thr b c
          \<and> (\<forall>x \<in> set (t # before). \<not> offsets thr b x)" using oc by (intro conjI)
      then have "\<exists>before after. t # ts = before @ c # after \<and> offsets thr b c
                  \<and> (\<forall>x \<in> set before. \<not> offsets thr b x)"
        by (intro exI)
      then show ?thesis unfolding eq Some by simp
    qed
  qed
qed

lemma dict_get_field:
  "dict_get j k d = Inr v \<Longrightarrow> v = (case field j k of None \<Rightarrow> d | Some w \<Rightarrow> w)"
  by (cases j) auto

lemma dict_get_Inr_dict: "dict_get j k d = Inr v \<Longrightarrow> \<exists>kvs. j = JDict kvs"
  by (cases j) auto

lemma dict_item_field: "dict_item j k = Inr v \<Longrightarrow> field j k = Some v"
  by (cases j) (auto split: option.splits)

lemma dict_has_field: "dict_has j k = (field j k \<noteq> None)"
  by (cases j) auto

lemma parse_prefix_Some:
  assumes "parse_prefix thr tx = Inr (Some (meta, bc))"
  shows "error_status tx = JNull
     \<and> truthy (meta_list tx ''preBalances'')
     \<and> truthy (meta_list tx ''postBalances'')
     \<and> truthy (account_key_list tx)
     \<and> dict_get tx ''meta'' (JDict []) = Inr meta
     \<and> analyze_balance_changes thr (meta_list tx ''preBalances'')
          (meta_list tx ''postBalances'') (account_key_list tx) = Inr bc"
proof -
  from assms obtain m where m: "dict_get tx ''meta'' (JDict []) = Inr m"
    by (auto simp: parse_prefix_def bind_err_def split: sum.splits)
  from assms m obtain msg where
    msg: "(if dict_has tx ''transaction''
           then bind_err (dict_item tx ''transaction'') (\<lambda>tr. dict_get tr ''message'' (JDict []))
           else dict_get tx ''message'' (JDict [])) = Inr msg"
    by (auto simp: parse_prefix_def bind_err_def split: sum.splits)
  from assms m msg obtain e where e: "dict_get m ''err'' JNull = Inr e"
    by (auto simp: parse_prefix_def bind_err_def split: sum.splits)
  from assms m msg e have e_null: "e = JNull"
    by (auto simp: parse_prefix_def bind_err_def split: sum.splits if_splits)
  from assms m msg e e_null obtain pre post where
    pre: "dict_get m ''preBalances'' (JList []) = Inr pre" and
    post: "dict_get m ''postBalances'' (JList []) = Inr post"
    by (auto simp: parse_prefix_def bind_err_def split: sum.splits if_splits)
  from assms m msg e e_null pre post have tr: "truthy pre" "truthy post"
    by (auto simp: parse_prefix_def bind_err_def split: sum.splits if_splits)
  from assms m msg e e_null pre post tr obtain ak where
    ak: "dict_get msg ''accountKeys'' JNull = Inr ak"
    by (auto simp: parse_prefix_def bind_err_def split: sum.splits if_splits)
  from assms m msg e e_null pre post tr ak obtain keys where
    keys: "(if is_list ak then dict_get msg ''accountKeys'' (JList [])
            else dict_get msg ''accounts'' (JList [])) = Inr keys"
    by (auto simp: parse_prefix_def bind_err_def split: sum.splits if_splits)
  from assms m msg e e_null pre post tr ak keys have
    tk: "truthy keys" and
    an: "analyze_balance_changes thr pre post keys = Inr bc" and mm: "m = meta"
    by (auto simp: parse_prefix_def bind_err_def split: sum.splits if_splits)
  obtain kvs where tx: "tx = JDict kvs" using dict_get_Inr_dict [OF m] by blast
  have fm: "m = (case field tx ''meta'' of None \<Rightarrow> JDict [] | Some w \<Rightarrow> w)"
    by (rule dict_get_field [OF m])
  obtain mk where mdict: "m = JDict mk" using dict_get_Inr_dict [OF e] by blast
  have es: "error_status tx = JNull"
    using fm mdict e e_null tx by (auto simp: error_status_def split: option.splits)
  have pl: "meta_list tx ''preBalances'' = pre"
    using fm mdict pre tx by (auto simp: meta_list_def split: option.splits)
  have ql: "meta_list tx ''postBalances'' = post"
    using fm mdict post tx by (auto simp: meta_list_def split: option.splits)
  have mo: "message_of tx = msg"
    using msg tx
    by (auto simp: message_of_def bind_err_def dest: dict_get_field
          split: option.splits if_splits sum.splits)
  obtain gk where gdict: "msg = JDict gk" using dict_get_Inr_dict [OF ak] by blast
  have kl: "account_key_list tx = keys"
    using ak keys gdict unfolding account_key_list_def mo
    by (auto split: option.splits json.splits if_splits)
  from es pl ql kl tr tk an m mm show ?thesis by simp
qed

text \<open>
  Claim C2, as the code has it. The deviation of a candidate is the float
  \<^verbatim>\<open>abs(abs(change) - target_amount)\<close>, the subtraction rounded to binary64. The
  match set is the list of the candidates whose deviation compares \<^verbatim>\<open><=\<close> to the
  tolerance: a candidate whose deviation equals the tolerance is in the match set, a
  candidate whose deviation is greater than the tolerance is not, and with an empty
  match set \<^verbatim>\<open>_parse_transaction\<close> returns \<^verbatim>\<open>None\<close>. This holds for every
  tolerance, so for every tolerance \<open>\<ge> 0\<close>.
\<close>

theorem match_set_tolerance_window:
  "match_set thr tx T tol = filter (\<lambda>t. float_le (deviation T t) tol) (candidates_of thr tx)
   \<and> (t \<in> set (candidates_of thr tx) \<and> float_eq (deviation T t) tol
        \<longrightarrow> t \<in> set (match_set thr tx T tol))
   \<and> (float_gt (deviation T t) tol \<longrightarrow> t \<notin> set (match_set thr tx T tol))
   \<and> (match_set thr tx T tol = [] \<longrightarrow> parse_transaction thr tx T tol = None)"
proof -
  have eq: "match_set thr tx T tol =
      filter (\<lambda>t. float_le (deviation T t) tol) (candidates_of thr tx)"
    by (simp add: match_set_def matches_of_filter)
  have ends: "t \<in> set (candidates_of thr tx) \<and> float_eq (deviation T t) tol
        \<longrightarrow> t \<in> set (match_set thr tx T tol)"
    unfolding eq by (simp add: float_le_def)
  have out: "float_gt (deviation T t) tol \<longrightarrow> t \<notin> set (match_set thr tx T tol)"
    unfolding eq
    by (auto simp: float_le_def float_gt_def dest: float_lt_asym float_lt_not_eq)
  have none: "match_set thr tx T tol = [] \<longrightarrow> parse_transaction thr tx T tol = None"
    by (simp add: parse_transaction_no_match)
  from eq ends out none show ?thesis by (intro conjI)
qed

text \<open>
  The witness of C2: target \<open>5.0\<close>, tolerance \<open>2.0\<close>, threshold \<open>0.001\<close>, and accounts
  that gain \<open>7.0\<close> (the endpoint \<open>T + \<tau>\<close>), \<open>3.0\<close> (the endpoint \<open>T - \<tau>\<close>) and
  \<open>7.000000001\<close> (outside). The first two are the match set.
\<close>

theorem match_set_tolerance_window_witness:
  "candidates_of (py_float 1 1000) window_tx
     = [candidate ''C'' 0 7000000000, candidate ''D'' 0 3000000000, candidate ''E'' 0 7000000001]
   \<and> float_eq (deviation (Finite False 5 0) (candidate ''C'' 0 7000000000)) (Finite False 1 1)
   \<and> float_eq (deviation (Finite False 5 0) (candidate ''D'' 0 3000000000)) (Finite False 1 1)
   \<and> float_gt (deviation (Finite False 5 0) (candidate ''E'' 0 7000000001)) (Finite False 1 1)
   \<and> match_set (py_float 1 1000) window_tx (Finite False 5 0) (Finite False 1 1)
       = [candidate ''C'' 0 7000000000, candidate ''D'' 0 3000000000]
   \<and> candidate ''E'' 0 7000000001
       \<notin> set (match_set (py_float 1 1000) window_tx (Finite False 5 0) (Finite False 1 1))"
proof -
  let ?thr = "py_float 1 1000" and ?T = "Finite False 5 0" and ?tol = "Finite False 1 1"
  let ?E = "candidate ''E'' 0 7000000001"
  have c: "candidates_of ?thr window_tx
     = [candidate ''C'' 0 7000000000, candidate ''D'' 0 3000000000, candidate ''E'' 0 7000000001]"
    by code_simp
  have dc: "float_eq (deviation ?T (candidate ''C'' 0 7000000000)) ?tol" by code_simp
  have dd: "float_eq (deviation ?T (candidate ''D'' 0 3000000000)) ?tol" by code_simp
  have de: "float_gt (deviation ?T ?E) ?tol" by code_simp
  have f: "filter (\<lambda>t. float_le (deviation ?T t) ?tol)
             [candidate ''C'' 0 7000000000, candidate ''D'' 0 3000000000, candidate ''E'' 0 7000000001]
           = [candidate ''C'' 0 7000000000, candidate ''D'' 0 3000000000]"
    by code_simp
  from match_set_tolerance_window [of ?thr window_tx ?T ?tol ?E]
  have m: "match_set ?thr window_tx ?T ?tol
             = filter (\<lambda>t. float_le (deviation ?T t) ?tol) (candidates_of ?thr window_tx)"
    and o: "float_gt (deviation ?T ?E) ?tol \<longrightarrow> ?E \<notin> set (match_set ?thr window_tx ?T ?tol)"
    by blast+
  from m c f have ms: "match_set ?thr window_tx ?T ?tol
       = [candidate ''C'' 0 7000000000, candidate ''D'' 0 3000000000]" by simp
  from o de have ne: "?E \<notin> set (match_set ?thr window_tx ?T ?tol)" by simp
  from c dc dd de ms ne show ?thesis by (intro conjI)
qed

text \<open>
  C2 as stated fails where the subtraction rounds. With target \<open>1.0\<close> and tolerance
  \<open>0.7\<close>, a candidate of magnitude \<open>0.3\<close> is strictly below \<open>T - \<tau>\<close>: in exact
  arithmetic on the three floats, \<open>0.3 + 0.7 < 1.0\<close> as multiples of \<open>2\<^sup>-\<^sup>5\<^sup>4\<close>, and
  also against the float \<^verbatim>\<open>1.0 - 0.7\<close>, which is \<open>0.30000000000000004\<close>. The
  candidate is in the match set all the same, because \<^verbatim>\<open>0.3 - 1.0\<close> rounds to
  \<open>-0.7\<close>.
\<close>

theorem tolerance_window_rounding_counterexample:
  "candidate ''A'' 0 300000000
     \<in> set (match_set (py_float 1 1000) boundary_tx (Finite False 1 0) (py_float 7 10))
   \<and> float_abs (transfer_change (candidate ''A'' 0 300000000)) = py_float 3 10
   \<and> py_float 3 10 = Finite False 5404319552844595 (- 54)
   \<and> py_float 7 10 = Finite False 3152519739159347 (- 52)
   \<and> scaled (- 54) (py_float 3 10) + scaled (- 54) (py_float 7 10)
        < scaled (- 54) (Finite False 1 0)
   \<and> float_lt (py_float 3 10) (float_sub (Finite False 1 0) (py_float 7 10))
   \<and> deviation (Finite False 1 0) (candidate ''A'' 0 300000000) = py_float 7 10"
  by code_simp

text \<open>
  Claim C5. A transaction whose metadata carries an error status other than
  \<^verbatim>\<open>None\<close>, or whose pre-balance list, post-balance list or account-key list is empty,
  yields \<^verbatim>\<open>None\<close> from \<^verbatim>\<open>_parse_transaction\<close>, whatever else it contains and
  whatever the threshold, target and tolerance.
\<close>

theorem failed_or_empty_transaction_rejected:
  assumes "error_status tx \<noteq> JNull
         \<or> meta_list tx ''preBalances'' = JList []
         \<or> meta_list tx ''postBalances'' = JList []
         \<or> account_key_list tx = JList []"
  shows "parse_transaction thr tx T tol = None"
proof (rule ccontr)
  assume "parse_transaction thr tx T tol \<noteq> None"
  then obtain meta bc where "parse_prefix thr tx = Inr (Some (meta, bc))"
    by (auto simp: parse_transaction_unfold split: sum.splits option.splits prod.splits)
  from parse_prefix_Some [OF this] assms show False by auto
qed

text \<open>
  The witness of C5: the transfer of the specification's example (\<open>A\<close> pays \<open>5.000005\<close>,
  \<open>B\<close> receives \<open>5.0002\<close>) is matched when its error status is \<^verbatim>\<open>None\<close> and rejected
  when the status is an error object; it is also rejected with an empty list of
  pre-balances, of post-balances or of account keys.
\<close>

theorem failed_or_empty_transaction_rejected_witness:
  "parse_transaction (py_float 1 1000)
      (mk_tx_with (JDict [(''InstructionError'', JInt 0)]) (JList [JStr ''sig'']) (JInt 5000)
         [10000000000, 0] [4999995000, 5000200000] [''A'', ''B''])
      (Finite False 5 0) (py_float 1 100) = None
   \<and> parse_transaction (py_float 1 1000)
      (mk_tx (JList [JStr ''sig'']) (JInt 5000) [] [4999995000, 5000200000] [''A'', ''B''])
      (Finite False 5 0) (py_float 1 100) = None
   \<and> parse_transaction (py_float 1 1000)
      (mk_tx (JList [JStr ''sig'']) (JInt 5000) [10000000000, 0] [] [''A'', ''B''])
      (Finite False 5 0) (py_float 1 100) = None
   \<and> parse_transaction (py_float 1 1000)
      (mk_tx (JList [JStr ''sig'']) (JInt 5000) [10000000000, 0] [4999995000, 5000200000] [])
      (Finite False 5 0) (py_float 1 100) = None
   \<and> parse_transaction (py_float 1 1000)
      (mk_tx (JList [JStr ''sig'']) (JInt 5000) [10000000000, 0] [4999995000, 5000200000]
         [''A'', ''B''])
      (Finite False 5 0) (py_float 1 100) \<noteq> None"
proof -
  let ?thr = "py_float 1 1000" and ?T = "Finite False 5 0" and ?tol = "py_float 1 100"
  let ?sig = "JList [JStr ''sig'']"
  let ?t1 = "mk_tx_with (JDict [(''InstructionError'', JInt 0)]) ?sig (JInt 5000)
               [10000000000, 0] [4999995000, 5000200000] [''A'', ''B'']"
  let ?t2 = "mk_tx ?sig (JInt 5000) [] [4999995000, 5000200000] [''A'', ''B'']"
  let ?t3 = "mk_tx ?sig (JInt 5000) [10000000000, 0] [] [''A'', ''B'']"
  let ?t4 = "mk_tx ?sig (JInt 5000) [10000000000, 0] [4999995000, 5000200000] []"
  have h1: "error_status ?t1 \<noteq> JNull" by code_simp
  have h2: "meta_list ?t2 ''preBalances'' = JList []" by code_simp
  have h3: "meta_list ?t3 ''postBalances'' = JList []" by code_simp
  have h4: "account_key_list ?t4 = JList []" by code_simp
  have r1: "parse_transaction ?thr ?t1 ?T ?tol = None"
    using h1 by (intro failed_or_empty_transaction_rejected) simp
  have r2: "parse_transaction ?thr ?t2 ?T ?tol = None"
    using h2 by (intro failed_or_empty_transaction_rejected) simp
  have r3: "parse_transaction ?thr ?t3 ?T ?tol = None"
    using h3 by (intro failed_or_empty_transaction_rejected) simp
  have r4: "parse_transaction ?thr ?t4 ?T ?tol = None"
    using h4 by (intro failed_or_empty_transaction_rejected) simp
  have ok: "parse_transaction ?thr
      (mk_tx ?sig (JInt 5000) [10000000000, 0] [4999995000, 5000200000] [''A'', ''B''])
      ?T ?tol \<noteq> None"
    by code_simp
  from r1 r2 r3 r4 ok show ?thesis by (intro conjI)
qed

text \<open>
  Claim C4. When there is a best match \<open>b\<close>, the counterparty is the first candidate,
  in the order the candidates were produced, that offsets \<open>b\<close>: it is on another account
  and the float \<^verbatim>\<open>abs(c["change"] + b["change"])\<close>, the sum rounded to binary64, is
  strictly below the threshold; there is no counterparty when no candidate offsets \<open>b\<close>.
  In the result the sender is the account of \<open>b\<close> when its change is negative, otherwise
  the counterparty's account when there is one, otherwise \<^verbatim>\<open>None\<close>; the receiver is the
  account of \<open>b\<close> when its change is positive, otherwise the counterparty's account when
  there is one, otherwise \<^verbatim>\<open>None\<close>.
\<close>

theorem counterparty_sender_receiver:
  assumes "best_match thr tx T tol = Some b"
  shows "(case counterparty_of thr tx T tol of
            None \<Rightarrow> (\<forall>c \<in> set (candidates_of thr tx). \<not> offsets thr b c)
          | Some c \<Rightarrow> (\<exists>before after. candidates_of thr tx = before @ c # after
                         \<and> offsets thr b c \<and> (\<forall>x \<in> set before. \<not> offsets thr b x)))
       \<and> (\<forall>r. parse_transaction thr tx T tol = Some r \<longrightarrow>
             sender r = (if float_lt (transfer_change b) (Finite False 0 0)
                         then Some (account b)
                         else map_option account (counterparty_of thr tx T tol))
           \<and> receiver r = (if float_gt (transfer_change b) (Finite False 0 0)
                           then Some (account b)
                           else map_option account (counterparty_of thr tx T tol)))"
proof -
  have cp: "counterparty_of thr tx T tol = find_counterparty thr b (candidates_of thr tx)"
    using assms by (simp add: counterparty_of_def)
  have first: "case counterparty_of thr tx T tol of
            None \<Rightarrow> (\<forall>c \<in> set (candidates_of thr tx). \<not> offsets thr b c)
          | Some c \<Rightarrow> (\<exists>before after. candidates_of thr tx = before @ c # after
                         \<and> offsets thr b c \<and> (\<forall>x \<in> set before. \<not> offsets thr b x))"
    unfolding cp by (rule find_counterparty_first)
  have sr: "\<forall>r. parse_transaction thr tx T tol = Some r \<longrightarrow>
             sender r = (if float_lt (transfer_change b) (Finite False 0 0)
                         then Some (account b)
                         else map_option account (counterparty_of thr tx T tol))
           \<and> receiver r = (if float_gt (transfer_change b) (Finite False 0 0)
                           then Some (account b)
                           else map_option account (counterparty_of thr tx T tol))"
  proof (intro allI impI)
    fix r assume r: "parse_transaction thr tx T tol = Some r"
    have "r = build_result b (counterparty_of thr tx T tol) (fee r) (balance_changes r)"
      by (rule parse_transaction_result [OF assms r])
    then have "sender r = sender (build_result b (counterparty_of thr tx T tol) (fee r) (balance_changes r))"
      and "receiver r = receiver (build_result b (counterparty_of thr tx T tol) (fee r) (balance_changes r))"
      by simp_all
    then show "sender r = (if float_lt (transfer_change b) (Finite False 0 0)
                         then Some (account b)
                         else map_option account (counterparty_of thr tx T tol))
           \<and> receiver r = (if float_gt (transfer_change b) (Finite False 0 0)
                           then Some (account b)
                           else map_option account (counterparty_of thr tx T tol))"
      by (simp add: build_result_def)
  qed
  from first sr show ?thesis by (rule conjI)
qed

text \<open>
  The witness of C4, the example of the specification: \<open>A\<close> pays \<open>5.000005\<close> and \<open>B\<close>
  receives \<open>5.0002\<close>, with threshold \<open>0.001\<close>, target \<open>5.0\<close> and tolerance \<open>0.01\<close>. The
  best match is \<open>B\<close>, the counterparty is \<open>A\<close>, and the result has sender \<open>A\<close> and
  receiver \<open>B\<close>.
\<close>

theorem counterparty_sender_receiver_witness:
  "best_match (py_float 1 1000) example_tx (Finite False 5 0) (py_float 1 100)
     = Some (candidate ''B'' 0 5000200000)
   \<and> counterparty_of (py_float 1 1000) example_tx (Finite False 5 0) (py_float 1 100)
     = Some (candidate ''A'' 10000000000 4999995000)
   \<and> offsets (py_float 1 1000) (candidate ''B'' 0 5000200000)
        (candidate ''A'' 10000000000 4999995000)
   \<and> parse_transaction (py_float 1 1000) example_tx (Finite False 5 0) (py_float 1 100)
     = Some \<lparr>amount = sol 5000200000, sender = Some (JStr ''A''), receiver = Some (JStr ''B''),
              fee = sol 5000,
              balance_changes = [(JStr ''A'', entry 10000000000 4999995000),
                                 (JStr ''B'', entry 0 5000200000)]\<rparr>"
proof -
  let ?thr = "py_float 1 1000" and ?T = "Finite False 5 0" and ?tol = "py_float 1 100"
  let ?b = "candidate ''B'' 0 5000200000" and ?c = "candidate ''A'' 10000000000 4999995000"
  let ?bc = "[(JStr ''A'', entry 10000000000 4999995000), (JStr ''B'', entry 0 5000200000)]"
  have b: "best_match ?thr example_tx ?T ?tol = Some ?b" by code_simp
  have c: "counterparty_of ?thr example_tx ?T ?tol = Some ?c" by code_simp
  have pos: "float_gt (transfer_change ?b) (Finite False 0 0)" by code_simp
  have npos: "\<not> float_lt (transfer_change ?b) (Finite False 0 0)" by code_simp
  have am: "float_abs (transfer_change ?b) = sol 5000200000" by code_simp
  obtain r where r: "parse_transaction ?thr example_tx ?T ?tol = Some r"
    and f: "fee r = sol 5000" and bc: "balance_changes r = ?bc"
    and a: "amount r = sol 5000200000"
  proof -
    have "parse_transaction ?thr example_tx ?T ?tol
            = Some \<lparr>amount = sol 5000200000, sender = Some (JStr ''A''),
                     receiver = Some (JStr ''B''), fee = sol 5000, balance_changes = ?bc\<rparr>"
      by code_simp
    then show ?thesis using that by simp
  qed
  note cs = counterparty_sender_receiver [OF b]
  from cs c have off: "offsets ?thr ?b ?c" by auto
  from cs r have s: "sender r = (if float_lt (transfer_change ?b) (Finite False 0 0)
                         then Some (account ?b)
                         else map_option account (counterparty_of ?thr example_tx ?T ?tol))"
    and rc: "receiver r = (if float_gt (transfer_change ?b) (Finite False 0 0)
                           then Some (account ?b)
                           else map_option account (counterparty_of ?thr example_tx ?T ?tol))"
    by blast+
  from s npos c have s': "sender r = Some (JStr ''A'')" by (simp add: candidate_def)
  from rc pos have r': "receiver r = Some (JStr ''B'')" by (simp add: candidate_def)
  from a s' r' f bc have "r = \<lparr>amount = sol 5000200000, sender = Some (JStr ''A''),
      receiver = Some (JStr ''B''), fee = sol 5000, balance_changes = ?bc\<rparr>"
    by (cases r) simp
  with b c off r show ?thesis by simp
qed

section \<open>Properties of the RPC client\<close>

lemma post_attempts_log:
  "\<exists>k. k \<le> n \<and> (0 < n \<longrightarrow> 0 < k)
       \<and> snd (post_attempts srv data n log) = log @ replicate k data"
proof (induction n arbitrary: log)
  case 0
  show ?case by simp
next
  case (Suc n)
  from Suc.IH [of "log @ [data]"] obtain k where
    k: "k \<le> n" and s: "snd (post_attempts srv data n (log @ [data])) = (log @ [data]) @ replicate k data"
    by blast
  have again: "\<exists>k. k \<le> Suc n \<and> (0 < Suc n \<longrightarrow> 0 < k)
       \<and> snd (post_attempts srv data n (log @ [data])) = log @ replicate k data"
  proof (intro exI [of _ "Suc k"] conjI)
    show "Suc k \<le> Suc n" using k by simp
    show "0 < Suc n \<longrightarrow> 0 < Suc k" by simp
    show "snd (post_attempts srv data n (log @ [data])) = log @ replicate (Suc k) data"
      unfolding s by simp
  qed
  have once: "\<exists>k. k \<le> Suc n \<and> (0 < Suc n \<longrightarrow> 0 < k)
       \<and> log @ [data] = log @ replicate k data"
    by (rule exI [of _ 1]) simp
  show ?case
  proof (cases "srv (log @ [data])")
    case Raised
    with again show ?thesis by simp
  next
    case (Status code body)
    show ?thesis
    proof (cases "code = 200")
      case True
      with Status once show ?thesis by simp
    next
      case False
      with Status again show ?thesis by simp
    qed
  qed
qed

lemma snd_make_rpc_request:
  "snd (make_rpc_request srv st method params) =
     \<lparr>request_counter = request_counter st + 1,
      posted = snd (post_attempts srv
                 \<lparr>req_id = request_counter st + 1, req_method = method, req_params = params\<rparr>
                 3 (posted st))\<rparr>"
  by (simp add: make_rpc_request_def Let_def case_prod_beta)

lemma make_rpc_request_log:
  "\<exists>k. 1 \<le> k \<and> k \<le> 3
       \<and> posted (snd (make_rpc_request srv st method params)) =
           posted st @ replicate k \<lparr>req_id = request_counter st + 1, req_method = method,
                                     req_params = params\<rparr>"
proof -
  let ?data = "\<lparr>req_id = request_counter st + 1, req_method = method, req_params = params\<rparr>"
  from post_attempts_log [of 3 srv ?data "posted st"] obtain k where
    k: "k \<le> 3" "0 < k" and s: "snd (post_attempts srv ?data 3 (posted st)) = posted st @ replicate k ?data"
    by auto
  have "posted (snd (make_rpc_request srv st method params)) = posted st @ replicate k ?data"
    unfolding snd_make_rpc_request using s by simp
  with k show ?thesis by (intro exI [of _ k]) simp
qed

lemma make_rpc_request_counter:
  "request_counter (snd (make_rpc_request srv st method params)) = request_counter st + 1"
  unfolding snd_make_rpc_request by simp

lemma snd_get_latest_block:
  "snd (get_latest_block srv st) = snd (make_rpc_request (slot_srv srv) st ''getSlot'' [finalized])"
  by (simp add: get_latest_block_def case_prod_beta)

lemma get_latest_block_log:
  "\<exists>k. 1 \<le> k \<and> k \<le> 3
       \<and> posted (snd (get_latest_block srv st)) =
           posted st @ replicate k \<lparr>req_id = request_counter st + 1, req_method = ''getSlot'',
                                     req_params = [finalized]\<rparr>"
  unfolding snd_get_latest_block by (rule make_rpc_request_log)

lemma get_latest_block_counter:
  "request_counter (snd (get_latest_block srv st)) = request_counter st + 1"
  unfolding snd_get_latest_block by (rule make_rpc_request_counter)

lemma snd_get_block_time:
  "snd (get_block_time srv st slot) =
     snd (make_rpc_request (time_srv srv) st ''getBlockTime'' [JInt slot])"
  by (simp add: get_block_time_def case_prod_beta)

lemma get_block_time_log:
  "\<exists>qs. posted (snd (get_block_time srv st slot)) = posted st @ qs
        \<and> (\<forall>q \<in> set qs. req_method q = ''getBlockTime'')"
proof -
  from make_rpc_request_log [of "time_srv srv" st "''getBlockTime''" "[JInt slot]"]
  obtain k where
    "posted (snd (make_rpc_request (time_srv srv) st ''getBlockTime'' [JInt slot])) =
       posted st @ replicate k \<lparr>req_id = request_counter st + 1, req_method = ''getBlockTime'',
                                 req_params = [JInt slot]\<rparr>"
    by blast
  then have "posted (snd (get_block_time srv st slot)) =
       posted st @ replicate k \<lparr>req_id = request_counter st + 1, req_method = ''getBlockTime'',
                                 req_params = [JInt slot]\<rparr>"
    unfolding snd_get_block_time .
  then show ?thesis
    by (intro exI [of _ "replicate k \<lparr>req_id = request_counter st + 1,
          req_method = ''getBlockTime'', req_params = [JInt slot]\<rparr>"]) simp
qed

lemma collect_block_times_log:
  "\<exists>qs. posted (snd (collect_block_times srv st slots blocks)) = posted st @ qs
        \<and> (\<forall>q \<in> set qs. req_method q = ''getBlockTime'')"
proof (induction slots arbitrary: st blocks)
  case Nil
  show ?case by simp
next
  case (Cons slot rest)
  obtain bt st' where g: "get_block_time srv st slot = (bt, st')" by (cases "get_block_time srv st slot")
  from get_block_time_log [of srv st slot] g obtain qs where
    qs: "posted st' = posted st @ qs" "\<forall>q \<in> set qs. req_method q = ''getBlockTime''"
    by auto
  have step: "\<exists>rs. posted (snd (collect_block_times srv st' rest b)) = posted st @ rs
        \<and> (\<forall>q \<in> set rs. req_method q = ''getBlockTime'')" for b
  proof -
    from Cons.IH [of st' b] obtain rs where
      rs: "posted (snd (collect_block_times srv st' rest b)) = posted st' @ rs"
          "\<forall>q \<in> set rs. req_method q = ''getBlockTime''"
      by blast
    show ?thesis
      by (rule exI [of _ "qs @ rs"]) (use qs rs in auto)
  qed
  show ?case
    using g step by (auto split: option.splits)
qed

lemma collect_block_times_result:
  "fst (collect_block_times srv st slots blocks) =
     blocks @ with_time (block_time_replies srv st slots)"
proof (induction slots arbitrary: st blocks)
  case Nil
  show ?case by simp
next
  case (Cons slot rest)
  obtain bt st' where g: "get_block_time srv st slot = (bt, st')" by (cases "get_block_time srv st slot")
  show ?case
    using g by (cases bt) (simp_all add: Cons.IH)
qed

lemma get_recent_blocks_result:
  "fst (get_recent_blocks srv st limit) =
     (case fst (range_response srv st limit) of
        Some (Result slots) \<Rightarrow>
          sorted_reverse (with_time
            (block_time_replies srv (snd (range_response srv st limit)) slots))
      | _ \<Rightarrow> [])"
proof -
  have "fst (get_recent_blocks srv st limit) =
     (case fst (range_response srv st limit) of
        Some (Result slots) \<Rightarrow>
          sorted_reverse (fst (collect_block_times srv (snd (range_response srv st limit)) slots []))
      | _ \<Rightarrow> [])"
    by (simp add: get_recent_blocks_def range_response_def case_prod_beta
          split: option.splits rpc_body.splits)
  then show ?thesis unfolding collect_block_times_result append_Nil .
qed

lemma get_recent_blocks_log:
  "\<exists>k1 k2 qs. 1 \<le> k2 \<and> k2 \<le> 3
     \<and> posted (snd (get_recent_blocks srv st limit)) =
         posted st
         @ replicate k1 \<lparr>req_id = request_counter st + 1, req_method = ''getSlot'',
                          req_params = [finalized]\<rparr>
         @ replicate k2 (range_request srv st limit) @ qs
     \<and> (\<forall>q \<in> set qs. req_method q = ''getBlockTime'')"
proof -
  obtain latest st1 where l: "get_latest_block srv st = (latest, st1)"
    by (cases "get_latest_block srv st")
  from get_latest_block_log [of srv st] l obtain k1 where
    p1: "posted st1 = posted st @ replicate k1 \<lparr>req_id = request_counter st + 1,
            req_method = ''getSlot'', req_params = [finalized]\<rparr>"
    by auto
  from get_latest_block_counter [of srv st] l have c1: "request_counter st1 = request_counter st + 1"
    by simp
  let ?ps = "[JInt (latest - limit), JInt latest, finalized]"
  obtain response st2 where m: "make_rpc_request (blocks_srv srv) st1 ''getBlocks'' ?ps = (response, st2)"
    by (cases "make_rpc_request (blocks_srv srv) st1 ''getBlocks'' ?ps")
  have rr: "range_request srv st limit =
              \<lparr>req_id = request_counter st1 + 1, req_method = ''getBlocks'', req_params = ?ps\<rparr>"
    using l c1 by (simp add: range_request_def)
  from make_rpc_request_log [of "blocks_srv srv" st1 "''getBlocks''" ?ps] m rr obtain k2 where
    k2: "1 \<le> k2" "k2 \<le> 3" and p2: "posted st2 = posted st1 @ replicate k2 (range_request srv st limit)"
    by auto
  show ?thesis
  proof (cases "\<exists>slots. response = Some (Result slots)")
    case False
    then have "snd (get_recent_blocks srv st limit) = st2"
      using l m by (auto simp: get_recent_blocks_def split: option.splits rpc_body.splits)
    with p1 p2 k2 show ?thesis
      by (intro exI [of _ k1] exI [of _ k2] exI [of _ "[]"]) simp
  next
    case True
    then obtain slots where r: "response = Some (Result slots)" by blast
    have s3: "snd (get_recent_blocks srv st limit) = snd (collect_block_times srv st2 slots [])"
      using l m r by (simp add: get_recent_blocks_def split: prod.splits)
    from collect_block_times_log [of srv st2 slots "[]"] obtain qs where
      qs: "posted (snd (collect_block_times srv st2 slots [])) = posted st2 @ qs"
          "\<forall>q \<in> set qs. req_method q = ''getBlockTime''"
      by blast
    with p1 p2 k2 s3 show ?thesis
      by (intro exI [of _ k1] exI [of _ k2] exI [of _ qs]) simp
  qed
qed

lemma sorted_reverse_mset: "mset (sorted_reverse xs) = mset xs"
  by (simp add: sorted_reverse_def)



lemma sorted_reverse_Nil: "(sorted_reverse xs = []) = (xs = [])"
  by (metis sorted_reverse_mset mset_zero_iff)


lemma new_requests_append: "posted st' = posted st @ qs \<Longrightarrow> new_requests st st' = qs"
  by (simp add: new_requests_def)



text \<open>
  Claim C8. When \<^verbatim>\<open>get_recent_blocks\<close> returns no block, \<^verbatim>\<open>scan_for_amount\<close>
  returns the empty list and leaves the client in the state \<^verbatim>\<open>get_recent_blocks\<close>
  left it in: it posts no request of its own, and none of the requests posted is a
  \<^verbatim>\<open>getBlock\<close>.
\<close>

theorem no_blocks_no_scan:
  assumes "fst (get_recent_blocks srv st block_limit) = []"
  shows "scan_for_amount srv thr st amount_in_sol block_limit tolerance
           = (Inr [], snd (get_recent_blocks srv st block_limit))
     \<and> (\<forall>q \<in> set (new_requests st
                     (snd (scan_for_amount srv thr st amount_in_sol block_limit tolerance))).
          req_method q \<noteq> ''getBlock'')"
proof -
  have eq: "scan_for_amount srv thr st amount_in_sol block_limit tolerance
           = (Inr [], snd (get_recent_blocks srv st block_limit))"
    using assms by (simp add: scan_for_amount_def case_prod_beta)
  from get_recent_blocks_log [of srv st block_limit] obtain k1 k2 qs where
    p: "posted (snd (get_recent_blocks srv st block_limit)) =
         posted st
         @ (replicate k1 \<lparr>req_id = request_counter st + 1, req_method = ''getSlot'',
                          req_params = [finalized]\<rparr>
            @ replicate k2 (range_request srv st block_limit) @ qs)"
    and qs: "\<forall>q \<in> set qs. req_method q = ''getBlockTime''"
    by auto
  have "\<forall>q \<in> set (new_requests st (snd (get_recent_blocks srv st block_limit))).
          req_method q \<noteq> ''getBlock''"
    unfolding new_requests_append [OF p] using qs by (auto simp: range_request_def)
  with eq show ?thesis by simp
qed

text \<open>
  The witness of C8: an endpoint whose only slot has no block time, although its
  block holds the transfer of the example. The resolver yields no block, and the scan
  returns the empty list after the three requests of the resolver.
\<close>

theorem no_blocks_no_scan_witness:
  "fst (get_recent_blocks (srv_one None (block_of [example_tx])) fresh 5) = []
   \<and> fst (scan_for_amount (srv_one None (block_of [example_tx])) (py_float 1 1000) fresh
           (Finite False 5 0) 5 (py_float 1 100)) = Inr []
   \<and> map req_method
        (new_requests fresh
           (snd (scan_for_amount (srv_one None (block_of [example_tx])) (py_float 1 1000) fresh
                   (Finite False 5 0) 5 (py_float 1 100))))
       = [''getSlot'', ''getBlocks'', ''getBlockTime'']"
proof -
  let ?srv = "srv_one None (block_of [example_tx])"
  have h: "fst (get_recent_blocks ?srv fresh 5) = []" by code_simp
  have l: "map req_method (new_requests fresh (snd (get_recent_blocks ?srv fresh 5)))
             = [''getSlot'', ''getBlocks'', ''getBlockTime'']"
    by code_simp
  from no_blocks_no_scan [OF h, of "py_float 1 1000" "Finite False 5 0" "py_float 1 100"]
  have eq: "scan_for_amount ?srv (py_float 1 1000) fresh (Finite False 5 0) 5 (py_float 1 100)
              = (Inr [], snd (get_recent_blocks ?srv fresh 5))"
    by blast
  from h l show ?thesis unfolding eq by simp
qed

text \<open>
  Claim C10, as the code has it. When \<^verbatim>\<open>_make_rpc_request\<close> returns
  \<^verbatim>\<open>None\<close> for \<^verbatim>\<open>getSlot\<close> or a response without a result, \<^verbatim>\<open>get_latest_block\<close>
  returns \<open>0\<close>, and \<^verbatim>\<open>get_recent_blocks\<close> posts the range request with the parameters
  \<open>0 - limit\<close> and \<open>0\<close>. \<^verbatim>\<open>get_recent_blocks\<close> returns the empty list exactly when the
  range request yields no result or yields slots none of which has a block time that is
  neither \<^verbatim>\<open>None\<close> nor \<open>0\<close> (an empty list of slots among them).
\<close>

theorem latest_block_fallback:
  "(slot_response srv st = None \<or> slot_response srv st = Some NoResult \<longrightarrow>
      fst (get_latest_block srv st) = 0
      \<and> req_params (range_request srv st limit) = [JInt (0 - limit), JInt 0, finalized]
      \<and> range_request srv st limit
          \<in> set (new_requests st (snd (get_recent_blocks srv st limit))))
   \<and> ((fst (get_recent_blocks srv st limit) = []) =
        (case fst (range_response srv st limit) of
           Some (Result slots) \<Rightarrow>
             with_time (block_time_replies srv (snd (range_response srv st limit)) slots) = []
         | _ \<Rightarrow> True))"
proof -
  have zero: "slot_response srv st = None \<or> slot_response srv st = Some NoResult \<Longrightarrow>
                fst (get_latest_block srv st) = 0"
    by (auto simp: slot_response_def get_latest_block_def case_prod_beta)
  from get_recent_blocks_log [of srv st limit] obtain k1 k2 qs where
    k2: "1 \<le> k2"
    and p: "posted (snd (get_recent_blocks srv st limit)) =
         posted st
         @ (replicate k1 \<lparr>req_id = request_counter st + 1, req_method = ''getSlot'',
                          req_params = [finalized]\<rparr>
            @ replicate k2 (range_request srv st limit) @ qs)"
    by auto
  have mem: "range_request srv st limit
          \<in> set (new_requests st (snd (get_recent_blocks srv st limit)))"
    unfolding new_requests_append [OF p] using k2 by simp
  have a: "slot_response srv st = None \<or> slot_response srv st = Some NoResult \<longrightarrow>
      fst (get_latest_block srv st) = 0
      \<and> req_params (range_request srv st limit) = [JInt (0 - limit), JInt 0, finalized]
      \<and> range_request srv st limit
          \<in> set (new_requests st (snd (get_recent_blocks srv st limit)))"
    using zero mem by (auto simp: range_request_def)
  have b: "(fst (get_recent_blocks srv st limit) = []) =
        (case fst (range_response srv st limit) of
           Some (Result slots) \<Rightarrow>
             with_time (block_time_replies srv (snd (range_response srv st limit)) slots) = []
         | _ \<Rightarrow> True)"
    unfolding get_recent_blocks_result
    by (simp add: sorted_reverse_Nil split: option.splits rpc_body.splits)
  from a b show ?thesis by (rule conjI)
qed

text \<open>
  The witness of C10: \<^verbatim>\<open>getSlot\<close> answers with status 500 three times, the range
  request asks for the slots from \<open>-5\<close> to \<open>0\<close>, and the two slots it yields come back
  in descending order.
\<close>

theorem latest_block_fallback_witness:
  "slot_response (srv_no_slot [- 1, 0]) fresh = None
   \<and> fst (get_latest_block (srv_no_slot [- 1, 0]) fresh) = 0
   \<and> req_params (range_request (srv_no_slot [- 1, 0]) fresh 5) = [JInt (- 5), JInt 0, finalized]
   \<and> range_request (srv_no_slot [- 1, 0]) fresh 5
       \<in> set (new_requests fresh (snd (get_recent_blocks (srv_no_slot [- 1, 0]) fresh 5)))
   \<and> fst (get_recent_blocks (srv_no_slot [- 1, 0]) fresh 5)
       = [(0, 1700000000), (- 1, 1700000000)]"
proof -
  let ?srv = "srv_no_slot [- 1, 0]"
  have h: "slot_response ?srv fresh = None" by code_simp
  have r: "fst (get_recent_blocks ?srv fresh 5) = [(0, 1700000000), (- 1, 1700000000)]"
    by code_simp
  from latest_block_fallback [of ?srv fresh 5] h
  have "fst (get_latest_block ?srv fresh) = 0"
    and "req_params (range_request ?srv fresh 5) = [JInt (0 - 5), JInt 0, finalized]"
    and "range_request ?srv fresh 5 \<in> set (new_requests fresh (snd (get_recent_blocks ?srv fresh 5)))"
    by blast+
  with h r show ?thesis by simp
qed

text \<open>
  The last clause of C10 as stated fails: with \<^verbatim>\<open>getSlot\<close> failing, the range request
  yields a result, the empty list of slots, and \<^verbatim>\<open>get_recent_blocks\<close> returns the
  empty list; it does so too when the range request yields the slot 100 and the slot
  has no block time.
\<close>

theorem empty_without_range_failure_counterexample:
  "slot_response (srv_no_slot []) fresh = None
   \<and> fst (range_response (srv_no_slot []) fresh 5) = Some (Result [])
   \<and> fst (get_recent_blocks (srv_no_slot []) fresh 5) = []
   \<and> fst (range_response (srv_one None (block_of [])) fresh 5) = Some (Result [100])
   \<and> fst (get_recent_blocks (srv_one None (block_of [])) fresh 5) = []"
  by code_simp

text \<open>
  Claim C6 does not hold of the code. The transfer of the example with an empty
  signature list is matched by \<^verbatim>\<open>_parse_transaction\<close>; line 229 then takes element 0 of
  the empty list, outside any \<^verbatim>\<open>try\<close>, and \<^verbatim>\<open>scan_for_amount\<close> raises IndexError. A
  \<^verbatim>\<open>getBlock\<close> response whose result is \<^verbatim>\<open>null\<close> makes \<^verbatim>\<open>get_block_transactions\<close>, and
  with it \<^verbatim>\<open>scan_for_amount\<close>, raise AttributeError.
\<close>

theorem scan_raises_on_empty_signatures:
  "parse_transaction (py_float 1 1000) unsigned_tx (Finite False 5 0) (py_float 1 100) \<noteq> None
   \<and> first_signature unsigned_tx = Inl IndexError
   \<and> fst (scan_for_amount (srv_one (Some 1700000000) (block_of [unsigned_tx]))
           (py_float 1 1000) fresh (Finite False 5 0) 5 (py_float 1 100)) = Inl IndexError
   \<and> fst (get_block_transactions (srv_one (Some 1700000000) JNull) fresh 100)
       = Inl AttributeError
   \<and> fst (scan_for_amount (srv_one (Some 1700000000) JNull)
           (py_float 1 1000) fresh (Finite False 5 0) 5 (py_float 1 100)) = Inl AttributeError"
  by code_simp

section \<open>The order of floats\<close>





















section \<open>Properties of the best match\<close>

lemma float_abs_NaN: "(float_abs x = NaN) = (x = NaN)"
  by (cases x) simp_all








section \<open>Properties of a repeated account key\<close>

lemma truthy_int_list: "truthy (int_list xs) = (xs \<noteq> [])"
  by (simp add: int_list_def)

lemma truthy_str_list: "truthy (str_list xs) = (xs \<noteq> [])"
  by (simp add: str_list_def)

lemma is_list_str_list: "is_list (str_list xs)"
  by (simp add: str_list_def)

lemma parse_prefix_mk_tx:
  assumes "pre \<noteq> []" "post \<noteq> []" "keys \<noteq> []" "balances_in_range pre post keys"
  shows "parse_prefix thr (mk_tx sigs fee_raw pre post keys) =
     Inr (Some (JDict [(''err'', JNull), (''fee'', fee_raw), (''preBalances'', int_list pre),
                       (''postBalances'', int_list post)],
                changes_upto thr pre post keys (length pre)))"
  using assms
  by (simp add: parse_prefix_def mk_tx_def mk_tx_with_def bind_err_Inr truthy_int_list
        truthy_str_list is_list_str_list analyze_typed)

lemma parse_transaction_changes:
  "parse_prefix thr tx = Inr (Some (meta, bc)) \<Longrightarrow> parse_transaction thr tx T tol = Some r \<Longrightarrow>
     balance_changes r = bc"
  by (auto simp: parse_transaction_unfold build_result_def split: sum.splits option.splits)

lemma account_significant_transfers:
  "map account (significant_transfers thr bc) =
     map fst (filter (\<lambda>p. float_ge (float_abs (change (snd p))) thr) bc)"
  by (induction bc) auto

lemma map_of_distinct_unique:
  "distinct (map fst c) \<Longrightarrow> map_of c k = Some v \<Longrightarrow> (k, w) \<in> set c \<Longrightarrow> w = v"
  using map_of_is_SomeI [of c k w] by simp

text \<open>
  Claim C9. For integer balances that convert to floats: the extractor's dictionary
  holds every key once. When a key is carried by two qualifying indices \<open>i < j\<close> and
  \<open>j\<close> is the last qualifying index that carries it, the entry under the key is that of
  \<open>j\<close>, and the entry of \<open>i\<close>, when it differs, is nowhere in the dictionary. For a
  transaction with these balances and keys, no two candidates are on the same account,
  and the \<^verbatim>\<open>balance_changes\<close> of a returned result is that dictionary.
\<close>

theorem repeated_key_last_entry_wins:
  assumes "balances_in_range pre post keys" and "pre \<noteq> []" and "post \<noteq> []" and "keys \<noteq> []"
  shows "\<exists>changes.
     analyze_balance_changes thr (int_list pre) (int_list post) (str_list keys) = Inr changes
     \<and> distinct (map fst changes)
     \<and> (\<forall>i j. i < j \<and> qualifies thr pre post keys i \<and> qualifies thr pre post keys j
              \<and> keys ! i = keys ! j
              \<and> (\<forall>l. j < l \<and> qualifies thr pre post keys l \<longrightarrow> keys ! l \<noteq> keys ! j)
           \<longrightarrow> map_of changes (JStr (keys ! i)) = Some (entry_at pre post j)
               \<and> (entry_at pre post i \<noteq> entry_at pre post j
                    \<longrightarrow> (JStr (keys ! i), entry_at pre post i) \<notin> set changes))
     \<and> distinct (map account (candidates_of thr (mk_tx sigs fee_raw pre post keys)))
     \<and> (\<forall>r. parse_transaction thr (mk_tx sigs fee_raw pre post keys) T tol = Some r
             \<longrightarrow> balance_changes r = changes)"
proof -
  let ?c = "changes_upto thr pre post keys (length pre)"
  let ?tx = "mk_tx sigs fee_raw pre post keys"
  have an: "analyze_balance_changes thr (int_list pre) (int_list post) (str_list keys) = Inr ?c"
    using assms(1) by (simp add: analyze_typed)
  have d: "distinct (map fst ?c)" by (rule distinct_changes_upto)
  have pp: "parse_prefix thr ?tx =
     Inr (Some (JDict [(''err'', JNull), (''fee'', fee_raw), (''preBalances'', int_list pre),
                       (''postBalances'', int_list post)], ?c))"
    by (rule parse_prefix_mk_tx [OF assms(2) assms(3) assms(4) assms(1)])
  have last: "\<forall>i j. i < j \<and> qualifies thr pre post keys i \<and> qualifies thr pre post keys j
              \<and> keys ! i = keys ! j
              \<and> (\<forall>l. j < l \<and> qualifies thr pre post keys l \<longrightarrow> keys ! l \<noteq> keys ! j)
           \<longrightarrow> map_of ?c (JStr (keys ! i)) = Some (entry_at pre post j)
               \<and> (entry_at pre post i \<noteq> entry_at pre post j
                    \<longrightarrow> (JStr (keys ! i), entry_at pre post i) \<notin> set ?c)"
  proof (intro allI impI)
    fix i j
    assume h: "i < j \<and> qualifies thr pre post keys i \<and> qualifies thr pre post keys j
              \<and> keys ! i = keys ! j
              \<and> (\<forall>l. j < l \<and> qualifies thr pre post keys l \<longrightarrow> keys ! l \<noteq> keys ! j)"
    then have qj: "qualifies thr pre post keys j" and k: "keys ! i = keys ! j" by simp_all
    from qj have jl: "j < length pre" by (simp add: qualifies_def)
    have "map_of ?c (JStr (keys ! j)) = Some (entry_at pre post j)"
      by (rule lookup_changes_upto [OF jl qj]) (use h in auto)
    then have m: "map_of ?c (JStr (keys ! i)) = Some (entry_at pre post j)" by (simp add: k)
    have "entry_at pre post i \<noteq> entry_at pre post j
            \<longrightarrow> (JStr (keys ! i), entry_at pre post i) \<notin> set ?c"
      using map_of_distinct_unique [OF d m] by blast
    with m show "map_of ?c (JStr (keys ! i)) = Some (entry_at pre post j)
               \<and> (entry_at pre post i \<noteq> entry_at pre post j
                    \<longrightarrow> (JStr (keys ! i), entry_at pre post i) \<notin> set ?c)"
      by simp
  qed
  have cand: "distinct (map account (candidates_of thr ?tx))"
    using d by (simp add: candidates_of_def pp account_significant_transfers distinct_map_filter)
  have res: "\<forall>r. parse_transaction thr ?tx T tol = Some r \<longrightarrow> balance_changes r = ?c"
    using parse_transaction_changes [OF pp] by blast
  show ?thesis
    unfolding an
    by (rule exI [of _ ?c], intro conjI) (rule refl, rule d, rule last, rule cand, rule res)
qed

text \<open>
  The witness of C9, with threshold \<open>0.001\<close>, target \<open>3.0\<close> and tolerance \<open>0.01\<close>: the
  key \<open>A\<close> is at the indices 0 and 1, which both qualify; the dictionary has the entry
  of index 1 under \<open>A\<close> and not that of index 0, the candidates are one for \<open>A\<close> and one
  for \<open>B\<close>, and the result carries that dictionary.
\<close>

theorem repeated_key_last_entry_wins_witness:
  "analyze_balance_changes (py_float 1 1000) (int_list [0, 0, 10000000000])
      (int_list [2000000000, 3000000000, 7000000000]) (str_list [''A'', ''A'', ''B''])
     = Inr [(JStr ''A'', entry 0 3000000000), (JStr ''B'', entry 10000000000 7000000000)]
   \<and> qualifies (py_float 1 1000) [0, 0, 10000000000] [2000000000, 3000000000, 7000000000]
        [''A'', ''A'', ''B''] 0
   \<and> entry_at [0, 0, 10000000000] [2000000000, 3000000000, 7000000000] 0 = entry 0 2000000000
   \<and> entry 0 2000000000 \<noteq> entry 0 3000000000
   \<and> map account (candidates_of (py_float 1 1000) repeated_key_tx) = [JStr ''A'', JStr ''B'']
   \<and> map_option balance_changes
        (parse_transaction (py_float 1 1000) repeated_key_tx (Finite False 3 0) (py_float 1 100))
       = Some [(JStr ''A'', entry 0 3000000000), (JStr ''B'', entry 10000000000 7000000000)]"
proof -
  let ?thr = "py_float 1 1000" and ?T = "Finite False 3 0" and ?tol = "py_float 1 100"
  let ?pre = "[0, 0, 10000000000] :: int list"
  let ?post = "[2000000000, 3000000000, 7000000000] :: int list"
  let ?keys = "[''A'', ''A'', ''B'']"
  let ?c = "[(JStr ''A'', entry 0 3000000000), (JStr ''B'', entry 10000000000 7000000000)]"
  have r: "balances_in_range ?pre ?post ?keys" by code_simp
  have an: "analyze_balance_changes ?thr (int_list ?pre) (int_list ?post) (str_list ?keys) = Inr ?c"
    by code_simp
  have q0: "qualifies ?thr ?pre ?post ?keys 0" by code_simp
  have e0: "entry_at ?pre ?post 0 = entry 0 2000000000" by code_simp
  have ne: "entry 0 2000000000 \<noteq> entry 0 3000000000" by code_simp
  have ca: "map account (candidates_of ?thr repeated_key_tx) = [JStr ''A'', JStr ''B'']"
    by code_simp
  have some: "parse_transaction ?thr repeated_key_tx ?T ?tol \<noteq> None" by code_simp
  then obtain res where res: "parse_transaction ?thr repeated_key_tx ?T ?tol = Some res" by blast
  have tx: "repeated_key_tx = mk_tx (JList [JStr ''sig'']) (JInt 5000) ?pre ?post ?keys"
    by (simp add: repeated_key_tx_def)
  from repeated_key_last_entry_wins [OF r, of ?thr "JList [JStr ''sig'']" "JInt 5000" ?T ?tol]
  obtain changes where
    c: "analyze_balance_changes ?thr (int_list ?pre) (int_list ?post) (str_list ?keys) = Inr changes"
    and b: "\<forall>r. parse_transaction ?thr (mk_tx (JList [JStr ''sig'']) (JInt 5000) ?pre ?post ?keys) ?T ?tol
                  = Some r \<longrightarrow> balance_changes r = changes"
    by auto
  from c an have "changes = ?c" by simp
  with b res tx have "balance_changes res = ?c" by simp
  with res have bc: "map_option balance_changes (parse_transaction ?thr repeated_key_tx ?T ?tol) = Some ?c"
    by simp
  from an q0 e0 ne ca bc show ?thesis by (intro conjI)
qed

end
